theory Spec2Isabelle
  imports Main "HOL-Library.Word"
begin

unbundle bit_operations_syntax

section \<open>Python values and exceptions\<close>

text \<open>
  Strings are lists of \<^typ>\<open>char\<close>; a character stands for the code point of the same
  number (0 to 255), so \<^const>\<open>length\<close> is Python's \<open>len\<close> on such a string.

  \<open>pyval\<close> is the part of Python's dynamic values that the functions below build or
  inspect: \<open>None\<close>, booleans, integers, strings, lists and dictionaries with string keys.
  A dictionary is the list of its items in insertion order.
\<close>

datatype pyval =
    PNone
  | PBool bool
  | PInt int
  | PStr string
  | PList "pyval list"
  | PDict "(string \<times> pyval) list"

text \<open>
  The error codes of \<open>SandboxErrorCodes\<close> that the validators use, the payload of a
  FastAPI \<open>HTTPException\<close> (status code, \<open>detail.code\<close>, \<open>detail.message\<close>), and the
  other exceptions that the modelled functions can raise.
\<close>

datatype error_code =
    INVALID_ENTRYPOINT
  | INVALID_METADATA_LABEL
  | INVALID_PORT
  | INVALID_EXPIRATION

datatype exn =
    HTTPException nat error_code string
  | OverflowError
  | KeyError string
  | ValidationError
  | OSError
  | UnicodeError

definition HTTP_400_BAD_REQUEST :: nat where
  "HTTP_400_BAD_REQUEST = 400"

section \<open>validators.py: ports\<close>

definition ensure_valid_port :: "int \<Rightarrow> exn + unit" where
  "ensure_valid_port port =
     (if port < 1 \<or> port > 65535
      then Inl (HTTPException HTTP_400_BAD_REQUEST INVALID_PORT
                  ''Port must be between 1 and 65535.'')
      else Inr ())"

section \<open>The \<open>Unset\<close> sentinel\<close>

text \<open>
  A field of a generated wire model holds either the \<open>Unset\<close> sentinel or a value.
\<close>

datatype 'a unset_or = UNSET | Val 'a

section \<open>validators.py: expiration\<close>

text \<open>
  A \<open>datetime\<close> is its wall-clock reading (year to microsecond), counted in microseconds
  from 0001-01-01T00:00:00, the smallest datetime, together with \<open>tzinfo\<close>: \<open>None\<close> for a
  naive value, or the UTC offset of a fixed-offset time zone in microseconds. The largest
  datetime is 9999-12-31T23:59:59.999999, so the readings that exist are \<open>0 .. MAX_WALL\<close>
  (day 3652059 is the last).
\<close>

record datetime =
  wall :: int
  tzinfo :: "int option"

definition MAX_WALL :: int where
  "MAX_WALL = 3652059 * 86400 * 1000000 - 1"

definition in_datetime_range :: "int \<Rightarrow> bool" where
  "in_datetime_range w = (0 \<le> w \<and> w \<le> MAX_WALL)"

text \<open>
  \<open>d.replace(tzinfo=timezone.utc)\<close> keeps the wall-clock reading and attaches UTC.
  \<open>d.astimezone(timezone.utc)\<close>, for an aware \<open>d\<close> with offset \<open>off\<close>, computes the
  reading \<open>wall d - off\<close> and raises \<open>OverflowError\<close> (date value out of range) when
  that reading is not one of a datetime.
\<close>

definition replace_tzinfo_utc :: "datetime \<Rightarrow> datetime" where
  "replace_tzinfo_utc d = d\<lparr>tzinfo := Some 0\<rparr>"

definition astimezone_utc :: "datetime \<Rightarrow> int \<Rightarrow> exn + datetime" where
  "astimezone_utc d off =
     (if in_datetime_range (wall d - off)
      then Inr (d\<lparr>wall := wall d - off, tzinfo := Some 0\<rparr>)
      else Inl OverflowError)"

text \<open>
  The instant a datetime denotes when a naive one is read as UTC; two aware datetimes
  are ordered by it.
\<close>

definition utc_instant :: "datetime \<Rightarrow> int" where
  "utc_instant d = (case tzinfo d of None \<Rightarrow> wall d | Some off \<Rightarrow> wall d - off)"

text \<open>
  \<open>now\<close> is the reading of the clock, \<open>datetime.now(timezone.utc)\<close>, an aware datetime
  in UTC.
\<close>

definition ensure_future_expiration :: "datetime \<Rightarrow> datetime \<Rightarrow> exn + datetime" where
  "ensure_future_expiration now expires_at =
     (case (case tzinfo expires_at of
              None \<Rightarrow> Inr (replace_tzinfo_utc expires_at)
            | Some off \<Rightarrow> astimezone_utc expires_at off) of
        Inl e \<Rightarrow> Inl e
      | Inr normalized \<Rightarrow>
          if utc_instant normalized \<le> utc_instant now
          then Inl (HTTPException HTTP_400_BAD_REQUEST INVALID_EXPIRATION
                      ''New expiration time must be in the future.'')
          else Inr normalized)"

section \<open>command_model_converter.py\<close>











section \<open>Regular expressions\<close>

text \<open>
  The patterns of \<open>validators.py\<close> use character classes, concatenation, \<open>*\<close>, \<open>?\<close>
  and grouping only. \<open>Cls\<close> is a character class given by its ranges; \<open>lang\<close> is the
  set of strings a pattern matches in full.
\<close>

datatype rexp =
    Zero
  | One
  | Cls "(char \<times> char) list"
  | Seq rexp rexp
  | Alt rexp rexp
  | Star rexp

definition Opt :: "rexp \<Rightarrow> rexp" where
  "Opt r = Alt r One"

definition in_cls :: "char \<Rightarrow> (char \<times> char) list \<Rightarrow> bool" where
  "in_cls c rs =
     list_ex (\<lambda>(lo, hi). (of_char lo :: nat) \<le> of_char c \<and> (of_char c :: nat) \<le> of_char hi) rs"

definition conc :: "string set \<Rightarrow> string set \<Rightarrow> string set" where
  "conc A B = {w. \<exists>u v. w = u @ v \<and> u \<in> A \<and> v \<in> B}"

inductive_set star :: "string set \<Rightarrow> string set" for A :: "string set" where
  star_empty: "[] \<in> star A"
| star_step: "u \<in> A \<Longrightarrow> v \<in> star A \<Longrightarrow> u @ v \<in> star A"

fun lang :: "rexp \<Rightarrow> string set" where
  "lang Zero = {}"
| "lang One = {[]}"
| "lang (Cls rs) = {w. \<exists>c. w = [c] \<and> in_cls c rs}"
| "lang (Seq r s) = conc (lang r) (lang s)"
| "lang (Alt r s) = lang r \<union> lang s"
| "lang (Star r) = star (lang r)"

text \<open>The executable matcher: derivatives, with the trivial simplifications.\<close>

fun nullable :: "rexp \<Rightarrow> bool" where
  "nullable Zero = False"
| "nullable One = True"
| "nullable (Cls rs) = False"
| "nullable (Seq r s) = (nullable r \<and> nullable s)"
| "nullable (Alt r s) = (nullable r \<or> nullable s)"
| "nullable (Star r) = True"

definition seq :: "rexp \<Rightarrow> rexp \<Rightarrow> rexp" where
  "seq r s = (if r = Zero \<or> s = Zero then Zero else if r = One then s else Seq r s)"

definition alt :: "rexp \<Rightarrow> rexp \<Rightarrow> rexp" where
  "alt r s = (if r = Zero then s else if s = Zero then r else if r = s then r else Alt r s)"

fun deriv :: "char \<Rightarrow> rexp \<Rightarrow> rexp" where
  "deriv c Zero = Zero"
| "deriv c One = Zero"
| "deriv c (Cls rs) = (if in_cls c rs then One else Zero)"
| "deriv c (Seq r s) =
     (if nullable r then alt (seq (deriv c r) s) (deriv c s) else seq (deriv c r) s)"
| "deriv c (Alt r s) = alt (deriv c r) (deriv c s)"
| "deriv c (Star r) = seq (deriv c r) (Star r)"

fun matches :: "rexp \<Rightarrow> string \<Rightarrow> bool" where
  "matches r [] = nullable r"
| "matches r (c # cs) = matches (deriv c r) cs"

text \<open>
  \<open>re.compile("^r$").match(s)\<close>: \<open>^\<close> and \<open>match\<close> anchor at the start; \<open>$\<close> (no
  MULTILINE flag) matches at the end of the string and also just before a line feed that
  is the last character. So the match succeeds when \<open>r\<close> matches all of \<open>s\<close>, or \<open>s\<close>
  ends in a line feed and \<open>r\<close> matches all of \<open>s\<close> but that line feed.
\<close>

definition re_match :: "rexp \<Rightarrow> string \<Rightarrow> bool" where
  "re_match r s = (matches r s \<or> (s \<noteq> [] \<and> last s = CHR 0x0A \<and> matches r (butlast s)))"

section \<open>validators.py: metadata labels\<close>

definition lower_or_digit :: "(char \<times> char) list" where
  "lower_or_digit = [(CHR ''a'', CHR ''z''), (CHR ''0'', CHR ''9'')]"

definition alnum :: "(char \<times> char) list" where
  "alnum = [(CHR ''A'', CHR ''Z''), (CHR ''a'', CHR ''z''), (CHR ''0'', CHR ''9'')]"

definition DNS_LABEL_PATTERN :: rexp where
  "DNS_LABEL_PATTERN =
     Seq (Cls lower_or_digit)
         (Opt (Seq (Star (Cls ((CHR ''-'', CHR ''-'') # lower_or_digit))) (Cls lower_or_digit)))"

definition DNS_SUBDOMAIN_RE :: rexp where
  "DNS_SUBDOMAIN_RE =
     Seq (Star (Seq DNS_LABEL_PATTERN (Cls [(CHR ''.'', CHR ''.'')]))) DNS_LABEL_PATTERN"

definition LABEL_NAME_RE :: rexp where
  "LABEL_NAME_RE =
     Seq (Cls alnum)
         (Opt (Seq (Star (Cls ((CHR ''-'', CHR ''-'') # alnum @
                               [(CHR ''_'', CHR ''_''), (CHR ''.'', CHR ''.'')])))
                   (Cls alnum)))"

definition LABEL_VALUE_RE :: rexp where
  "LABEL_VALUE_RE = Opt LABEL_NAME_RE"

text \<open>\<open>key.split("/", 1)\<close> for a key that contains a slash.\<close>

definition split_slash :: "string \<Rightarrow> string \<times> string" where
  "split_slash key =
     (takeWhile (\<lambda>c. c \<noteq> CHR ''/'') key, tl (dropWhile (\<lambda>c. c \<noteq> CHR ''/'') key))"

definition is_valid_label_key :: "string \<Rightarrow> bool" where
  "is_valid_label_key key =
     (if length key > 253 \<or> (CHR ''/'' \<in> set key \<and> length (fst (split_slash key)) > 253)
      then False
      else if CHR ''/'' \<in> set key
      then (let (prefix, name) = split_slash key in
            if prefix = [] \<or> name = [] then False
            else if \<not> re_match DNS_SUBDOMAIN_RE prefix then False
            else if length name > 63 \<or> \<not> re_match LABEL_NAME_RE name then False
            else True)
      else if length key > 63 \<or> \<not> re_match LABEL_NAME_RE key then False
      else True)"

definition is_valid_label_value :: "string \<Rightarrow> bool" where
  "is_valid_label_value v = (if length v > 63 then False else re_match LABEL_VALUE_RE v)"

fun check_items :: "(pyval \<times> pyval) list \<Rightarrow> exn + unit" where
  "check_items [] = Inr ()"
| "check_items ((PStr key, PStr v) # rest) =
     (if \<not> is_valid_label_key key
      then Inl (HTTPException HTTP_400_BAD_REQUEST INVALID_METADATA_LABEL
                  (''Metadata key '' @ [CHR 0x27] @ key @ [CHR 0x27] @
                   '' is not a valid Kubernetes label key.''))
      else if \<not> is_valid_label_value v
      then Inl (HTTPException HTTP_400_BAD_REQUEST INVALID_METADATA_LABEL
                  (''Metadata value '' @ [CHR 0x27] @ v @ [CHR 0x27] @
                   '' is not a valid Kubernetes label value.''))
      else check_items rest)"
| "check_items ((key, v) # rest) =
     Inl (HTTPException HTTP_400_BAD_REQUEST INVALID_METADATA_LABEL
            ''Metadata keys and values must be strings.'')"

text \<open>
  \<open>metadata\<close> is \<open>None\<close> or a dictionary, here the list of its items in iteration
  order; keys and values are any Python values.
\<close>

definition ensure_metadata_labels :: "(pyval \<times> pyval) list option \<Rightarrow> exn + unit" where
  "ensure_metadata_labels metadata =
     (case metadata of
        None \<Rightarrow> Inr ()
      | Some items \<Rightarrow> if items = [] then Inr () else check_items items)"

fun is_str :: "pyval \<Rightarrow> bool" where
  "is_str (PStr s) = True"
| "is_str v = False"

text \<open>
  The label rules as the specification words them: a key is split on its first slash;
  the prefix, when there is one, is a non-empty DNS subdomain of at most 253 characters;
  the name is at most 63 characters and matches the name pattern; a value is at most 63
  characters and is empty or matches the name pattern.
\<close>

definition spec_key_rule :: "string \<Rightarrow> bool" where
  "spec_key_rule key =
     (if CHR ''/'' \<in> set key
      then (let (prefix, name) = split_slash key in
            prefix \<noteq> [] \<and> length prefix \<le> 253 \<and> matches DNS_SUBDOMAIN_RE prefix \<and>
            length name \<le> 63 \<and> matches LABEL_NAME_RE name)
      else length key \<le> 63 \<and> matches LABEL_NAME_RE key)"

definition spec_value_rule :: "string \<Rightarrow> bool" where
  "spec_value_rule v = (length v \<le> 63 \<and> (v = [] \<or> matches LABEL_NAME_RE v))"

definition str_items :: "(string \<times> string) list \<Rightarrow> (pyval \<times> pyval) list" where
  "str_items m = map (\<lambda>(k, v). (PStr k, PStr v)) m"


section \<open>volume.py\<close>

text \<open>
  Dictionary operations on the list of items: \<open>d[k] = v\<close> overwrites the value of an
  existing key in place and appends a new key; \<open>d.pop(k)\<close> and \<open>d.pop(k, default)\<close>
  look the key up and remove it.
\<close>

fun dict_set :: "(string \<times> pyval) list \<Rightarrow> string \<Rightarrow> pyval \<Rightarrow> (string \<times> pyval) list" where
  "dict_set [] k v = [(k, v)]"
| "dict_set ((k', v') # d) k v = (if k' = k then (k', v) # d else (k', v') # dict_set d k v)"

definition dict_pop :: "(string \<times> pyval) list \<Rightarrow> string \<Rightarrow> pyval option \<times> (string \<times> pyval) list" where
  "dict_pop d k = (map_of d k, filter (\<lambda>(k', v'). k' \<noteq> k) d)"

text \<open>
  The attributes of a \<open>Volume\<close>. Python does not check the annotations, so \<open>name\<close>,
  \<open>mount_path\<close>, \<open>read_only\<close> and \<open>sub_path\<close> hold any value; \<open>host\<close> and \<open>pvc\<close> hold
  objects of the classes \<open>Host\<close> and \<open>PVC\<close>, which are not among the source files: their
  types are the parameters \<open>'h\<close> and \<open>'p\<close>, and their \<open>to_dict\<close> and \<open>from_dict\<close> are
  parameters of the two functions below.
\<close>

record ('h, 'p) Volume =
  name :: pyval
  mount_path :: pyval
  host :: "'h unset_or"
  pvc :: "'p unset_or"
  read_only :: "pyval unset_or"
  sub_path :: "pyval unset_or"

definition Volume_to_dict ::
  "('h \<Rightarrow> (string \<times> pyval) list) \<Rightarrow> ('p \<Rightarrow> (string \<times> pyval) list) \<Rightarrow>
   ('h, 'p) Volume \<Rightarrow> (string \<times> pyval) list" where
  "Volume_to_dict Host_to_dict PVC_to_dict self =
     (let host_d = (case host self of UNSET \<Rightarrow> UNSET | Val h \<Rightarrow> Val (PDict (Host_to_dict h)));
          pvc_d = (case pvc self of UNSET \<Rightarrow> UNSET | Val c \<Rightarrow> Val (PDict (PVC_to_dict c)));
          d0 = dict_set (dict_set [] ''name'' (name self)) ''mountPath'' (mount_path self);
          d1 = (case host_d of UNSET \<Rightarrow> d0 | Val v \<Rightarrow> dict_set d0 ''host'' v);
          d2 = (case pvc_d of UNSET \<Rightarrow> d1 | Val v \<Rightarrow> dict_set d1 ''pvc'' v);
          d3 = (case read_only self of UNSET \<Rightarrow> d2 | Val v \<Rightarrow> dict_set d2 ''readOnly'' v);
          d4 = (case sub_path self of UNSET \<Rightarrow> d3 | Val v \<Rightarrow> dict_set d3 ''subPath'' v)
      in d4)"

definition pop_or_unset :: "(string \<times> pyval) list \<Rightarrow> string \<Rightarrow> pyval unset_or \<times> (string \<times> pyval) list" where
  "pop_or_unset d k = (case dict_pop d k of (None, d') \<Rightarrow> (UNSET, d') | (Some v, d') \<Rightarrow> (Val v, d'))"

definition Volume_from_dict ::
  "(pyval \<Rightarrow> exn + 'h) \<Rightarrow> (pyval \<Rightarrow> exn + 'p) \<Rightarrow> (string \<times> pyval) list \<Rightarrow>
   exn + ('h, 'p) Volume" where
  "Volume_from_dict Host_from_dict PVC_from_dict src_dict =
     (case dict_pop src_dict ''name'' of
        (None, d1) \<Rightarrow> Inl (KeyError ''name'')
      | (Some name_v, d1) \<Rightarrow>
     (case dict_pop d1 ''mountPath'' of
        (None, d2) \<Rightarrow> Inl (KeyError ''mountPath'')
      | (Some mount_path_v, d2) \<Rightarrow>
     (case pop_or_unset d2 ''host'' of (host_raw, d3) \<Rightarrow>
     (case (case host_raw of UNSET \<Rightarrow> Inr UNSET
                           | Val v \<Rightarrow> (case Host_from_dict v of Inl e \<Rightarrow> Inl e | Inr h \<Rightarrow> Inr (Val h))) of
        Inl e \<Rightarrow> Inl e
      | Inr host_v \<Rightarrow>
     (case pop_or_unset d3 ''pvc'' of (pvc_raw, d4) \<Rightarrow>
     (case (case pvc_raw of UNSET \<Rightarrow> Inr UNSET
                          | Val v \<Rightarrow> (case PVC_from_dict v of Inl e \<Rightarrow> Inl e | Inr c \<Rightarrow> Inr (Val c))) of
        Inl e \<Rightarrow> Inl e
      | Inr pvc_v \<Rightarrow>
     (case pop_or_unset d4 ''readOnly'' of (read_only_v, d5) \<Rightarrow>
     (case pop_or_unset d5 ''subPath'' of (sub_path_v, d6) \<Rightarrow>
        Inr \<lparr> name = name_v, mount_path = mount_path_v, host = host_v, pvc = pvc_v,
              read_only = read_only_v, sub_path = sub_path_v \<rparr>))))))))"

text \<open>
  An instance of the two classes for the examples: an object with one string attribute
  that is written to and read from the dictionary key \<open>key\<close>.
\<close>

definition one_field_to_dict :: "string \<Rightarrow> string \<Rightarrow> (string \<times> pyval) list" where
  "one_field_to_dict key x = [(key, PStr x)]"

definition one_field_from_dict :: "string \<Rightarrow> pyval \<Rightarrow> exn + string" where
  "one_field_from_dict key d =
     (case d of
        PDict items \<Rightarrow> (case map_of items key of Some (PStr x) \<Rightarrow> Inr x | _ \<Rightarrow> Inl (KeyError key))
      | _ \<Rightarrow> Inl (KeyError key))"


section \<open>request_id.py\<close>

text \<open>
  Header values reach the middleware decoded as Latin-1, one character per byte.
  \<open>str.isspace\<close> holds on such a character for the code points 9 to 13, 28 to 32, 133
  and 160; \<open>str.strip()\<close> removes the characters that satisfy it from both ends.
\<close>

definition py_isspace :: "char \<Rightarrow> bool" where
  "py_isspace c =
     (let n = (of_char c :: nat)
      in (9 \<le> n \<and> n \<le> 13) \<or> (28 \<le> n \<and> n \<le> 32) \<or> n = 133 \<or> n = 160)"

definition strip :: "string \<Rightarrow> string" where
  "strip s = rev (dropWhile py_isspace (rev (dropWhile py_isspace s)))"






definition hex_digit :: "nat \<Rightarrow> char" where
  "hex_digit n = ''0123456789abcdef'' ! (n mod 16)"
















section \<open>sandbox_service.py: the bind address\<close>

text \<open>
  The operating system is a parameter. \<open>udp_local_address env family target\<close> is what
  creating a datagram socket of the family, connecting it to the target and reading
  \<open>getsockname()[0]\<close> gives: \<open>None\<close> when one of the three raises \<open>OSError\<close>, the local
  address otherwise. \<open>hostname_addresses env family\<close> is what
  \<open>getaddrinfo(gethostname(), None, family, SOCK_DGRAM)\<close> gives: \<open>Inl e\<close> when it raises
  the exception \<open>e\<close>, otherwise the addresses \<open>info[4][0]\<close> of the entries in order. A
  failed lookup raises \<open>OSError\<close>. \<open>getaddrinfo\<close> encodes the host name with the \<open>idna\<close>
  codec first, and that raises \<open>UnicodeError\<close>, which is not an \<open>OSError\<close>, for a host
  name with an empty label or a label of more than 63 characters.
\<close>

datatype family = AF_INET | AF_INET6

record net_env =
  udp_local_address :: "family \<Rightarrow> string \<times> nat \<Rightarrow> string option"
  hostname_addresses :: "family \<Rightarrow> exn + string list"

definition probe_target :: "family \<Rightarrow> string \<times> nat" where
  "probe_target family =
     (if family = AF_INET6 then (''2001:4860:4860::8888'', 80) else (''8.8.8.8'', 80))"

definition startswith :: "string \<Rightarrow> string \<Rightarrow> bool" where
  "startswith s p = (take (length p) s = p)"

definition localhost :: "family \<Rightarrow> string" where
  "localhost family = (if family = AF_INET6 then ''::1'' else ''127.0.0.1'')"

text \<open>
  The second \<open>try\<close> block and the final \<open>return\<close>. Only \<open>OSError\<close> is caught; any other
  exception leaves the function.
\<close>

definition hostname_fallback :: "net_env \<Rightarrow> family \<Rightarrow> exn + string" where
  "hostname_fallback env family =
     (case hostname_addresses env family of
        Inl e \<Rightarrow> if e = OSError then Inr (localhost family) else Inl e
      | Inr [] \<Rightarrow> Inr (localhost family)
      | Inr (addr # others) \<Rightarrow> if addr \<noteq> [] then Inr addr else Inr (localhost family))"

function resolve_bind_ip :: "net_env \<Rightarrow> family \<Rightarrow> exn + string" where
  "resolve_bind_ip env family =
     (case udp_local_address env family (probe_target family) of
        None \<Rightarrow>
          if family = AF_INET6 then resolve_bind_ip env AF_INET
          else hostname_fallback env family
      | Some ip \<Rightarrow>
          if ip \<noteq> [] \<and> (family = AF_INET \<or> \<not> startswith ip ''fe80'') then Inr ip
          else hostname_fallback env family)"
  by pat_completeness auto
termination
  by (relation "measure (\<lambda>(env, family). if family = AF_INET6 then 1 else 0)") auto


section \<open>JSON\<close>

text \<open>
  \<open>json.dumps\<close> with its default arguments: items are separated by a comma and a space,
  keys from values by a colon and a space, and strings are written in ASCII: the double
  quote, the backslash and the control characters of the short escapes are escaped with a
  backslash, the other characters outside the range from space to tilde as \<open>\u\<close> with
  four hexadecimal digits.
\<close>

definition dquote :: char where
  "dquote = CHR 0x22"

definition backslash :: char where
  "backslash = CHR 0x5C"

definition hex4 :: "nat \<Rightarrow> string" where
  "hex4 n = [hex_digit (n div 4096), hex_digit (n div 256), hex_digit (n div 16), hex_digit n]"

definition escape_char :: "char \<Rightarrow> string" where
  "escape_char c =
     (if c = backslash then [backslash, backslash]
      else if c = dquote then [backslash, dquote]
      else if c = CHR 0x08 then [backslash, CHR ''b'']
      else if c = CHR 0x0C then [backslash, CHR ''f'']
      else if c = CHR 0x0A then [backslash, CHR ''n'']
      else if c = CHR 0x0D then [backslash, CHR ''r'']
      else if c = CHR 0x09 then [backslash, CHR ''t'']
      else if (32 :: nat) \<le> of_char c \<and> (of_char c :: nat) \<le> 126 then [c]
      else backslash # CHR ''u'' # hex4 (of_char c))"

definition escape :: "string \<Rightarrow> string" where
  "escape s = concat (map escape_char s)"

definition json_string :: "string \<Rightarrow> string" where
  "json_string s = dquote # escape s @ [dquote]"

fun join :: "string \<Rightarrow> string list \<Rightarrow> string" where
  "join sep [] = []"
| "join sep [x] = x"
| "join sep (x # y # ys) = x @ sep @ join sep (y # ys)"

function nat_digits :: "nat \<Rightarrow> string" where
  "nat_digits n = (if n < 10 then [hex_digit n] else nat_digits (n div 10) @ [hex_digit (n mod 10)])"
  by pat_completeness auto
termination
  by (relation "measure (\<lambda>n. n)") auto

definition int_repr :: "int \<Rightarrow> string" where
  "int_repr i = (if i < 0 then CHR ''-'' # nat_digits (nat (- i)) else nat_digits (nat i))"

fun json_dumps :: "pyval \<Rightarrow> string"
  and dumps_items :: "pyval list \<Rightarrow> string list"
  and dumps_members :: "(string \<times> pyval) list \<Rightarrow> string list" where
  "json_dumps PNone = ''null''"
| "json_dumps (PBool b) = (if b then ''true'' else ''false'')"
| "json_dumps (PInt i) = int_repr i"
| "json_dumps (PStr s) = json_string s"
| "json_dumps (PList xs) = ''['' @ join '', '' (dumps_items xs) @ '']''"
| "json_dumps (PDict kvs) = ''{'' @ join '', '' (dumps_members kvs) @ ''}''"
| "dumps_items [] = []"
| "dumps_items (x # xs) = json_dumps x # dumps_items xs"
| "dumps_members [] = []"
| "dumps_members ((k, v) # kvs) = (json_string k @ '': '' @ json_dumps v) # dumps_members kvs"

text \<open>
  \<open>json.loads\<close> on the texts made of objects, arrays, strings and the three literals:
  white space is skipped between tokens; a string may not hold a raw control character;
  the escapes are the short ones and \<open>\u\<close> with four hexadecimal digits; an object
  becomes a dictionary, a repeated key keeping its first place and its last value.
  Numbers, and \<open>\u\<close> escapes of code points above 255 (which a string here cannot
  hold), are not read: the result is \<open>None\<close>, as it is for a text that is not JSON.
  The recursion is bounded by a counter, which \<open>json_loads\<close> starts at twice the length
  of the text plus one; that this is enough for the text of a policy is part of the proofs
  below.
\<close>

definition is_json_ws :: "char \<Rightarrow> bool" where
  "is_json_ws c = (c = CHR '' '' \<or> c = CHR 0x09 \<or> c = CHR 0x0A \<or> c = CHR 0x0D)"

definition skip_ws :: "string \<Rightarrow> string" where
  "skip_ws s = dropWhile is_json_ws s"

definition hex_val :: "char \<Rightarrow> nat option" where
  "hex_val c =
     (let n = (of_char c :: nat)
      in if 48 \<le> n \<and> n \<le> 57 then Some (n - 48)
         else if 97 \<le> n \<and> n \<le> 102 then Some (n - 87)
         else if 65 \<le> n \<and> n \<le> 70 then Some (n - 55)
         else None)"

definition unescape :: "char \<Rightarrow> char option" where
  "unescape e =
     (if e = dquote then Some dquote
      else if e = backslash then Some backslash
      else if e = CHR ''/'' then Some (CHR ''/'')
      else if e = CHR ''b'' then Some (CHR 0x08)
      else if e = CHR ''f'' then Some (CHR 0x0C)
      else if e = CHR ''n'' then Some (CHR 0x0A)
      else if e = CHR ''r'' then Some (CHR 0x0D)
      else if e = CHR ''t'' then Some (CHR 0x09)
      else None)"

definition hex4_val :: "char \<Rightarrow> char \<Rightarrow> char \<Rightarrow> char \<Rightarrow> nat option" where
  "hex4_val h1 h2 h3 h4 =
     (case (hex_val h1, hex_val h2, hex_val h3, hex_val h4) of
        (Some a, Some b, Some c, Some d) \<Rightarrow> Some (((a * 16 + b) * 16 + c) * 16 + d)
      | _ \<Rightarrow> None)"

definition with_char :: "char \<Rightarrow> (string \<times> string) option \<Rightarrow> (string \<times> string) option" where
  "with_char c r = (case r of None \<Rightarrow> None | Some (s, rest) \<Rightarrow> Some (c # s, rest))"

fun parse_chars :: "string \<Rightarrow> (string \<times> string) option" where
  "parse_chars [] = None"
| "parse_chars (c # cs) =
     (if c = dquote then Some ([], cs)
      else if c = backslash then
        (case cs of
           [] \<Rightarrow> None
         | e # r \<Rightarrow>
             if e = CHR ''u'' then
               (case r of
                  h1 # h2 # h3 # h4 # r' \<Rightarrow>
                    (case hex4_val h1 h2 h3 h4 of
                       None \<Rightarrow> None
                     | Some n \<Rightarrow> if n < 256 then with_char (char_of n) (parse_chars r') else None)
                | _ \<Rightarrow> None)
             else (case unescape e of
                     None \<Rightarrow> None
                   | Some ch \<Rightarrow> with_char ch (parse_chars r)))
      else if (of_char c :: nat) < 32 then None
      else with_char c (parse_chars cs))"

definition dict_of_pairs :: "(string \<times> pyval) list \<Rightarrow> (string \<times> pyval) list" where
  "dict_of_pairs kvs = foldl (\<lambda>d (k, v). dict_set d k v) [] kvs"

fun parse_value :: "nat \<Rightarrow> string \<Rightarrow> (pyval \<times> string) option"
  and parse_items :: "nat \<Rightarrow> string \<Rightarrow> (pyval list \<times> string) option"
  and parse_members :: "nat \<Rightarrow> string \<Rightarrow> ((string \<times> pyval) list \<times> string) option" where
  "parse_value 0 s = None"
| "parse_value (Suc n) s =
     (case skip_ws s of
        [] \<Rightarrow> None
      | c # cs \<Rightarrow>
          if c = dquote then
            (case parse_chars cs of None \<Rightarrow> None | Some (x, r) \<Rightarrow> Some (PStr x, r))
          else if c = CHR ''['' then
            (case skip_ws cs of
               [] \<Rightarrow> None
             | c' # cs' \<Rightarrow>
                 if c' = CHR '']'' then Some (PList [], cs')
                 else (case parse_items n cs of
                         None \<Rightarrow> None
                       | Some (xs, r) \<Rightarrow> Some (PList xs, r)))
          else if c = CHR ''{'' then
            (case skip_ws cs of
               [] \<Rightarrow> None
             | c' # cs' \<Rightarrow>
                 if c' = CHR ''}'' then Some (PDict [], cs')
                 else (case parse_members n cs of
                         None \<Rightarrow> None
                       | Some (kvs, r) \<Rightarrow> Some (PDict (dict_of_pairs kvs), r)))
          else if startswith (c # cs) ''null'' then Some (PNone, drop 4 (c # cs))
          else if startswith (c # cs) ''true'' then Some (PBool True, drop 4 (c # cs))
          else if startswith (c # cs) ''false'' then Some (PBool False, drop 5 (c # cs))
          else None)"
| "parse_items 0 s = None"
| "parse_items (Suc n) s =
     (case parse_value n s of
        None \<Rightarrow> None
      | Some (v, r) \<Rightarrow>
          (case skip_ws r of
             [] \<Rightarrow> None
           | c # cs \<Rightarrow>
               if c = CHR '','' then
                 (case parse_items n cs of None \<Rightarrow> None | Some (vs, r') \<Rightarrow> Some (v # vs, r'))
               else if c = CHR '']'' then Some ([v], cs)
               else None))"
| "parse_members 0 s = None"
| "parse_members (Suc n) s =
     (case skip_ws s of
        [] \<Rightarrow> None
      | c # cs \<Rightarrow>
          if c \<noteq> dquote then None
          else
            (case parse_chars cs of
               None \<Rightarrow> None
             | Some (k, r) \<Rightarrow>
                 (case skip_ws r of
                    [] \<Rightarrow> None
                  | c1 # r1 \<Rightarrow>
                      if c1 \<noteq> CHR '':'' then None
                      else
                        (case parse_value n r1 of
                           None \<Rightarrow> None
                         | Some (v, r2) \<Rightarrow>
                             (case skip_ws r2 of
                                [] \<Rightarrow> None
                              | c2 # r3 \<Rightarrow>
                                  if c2 = CHR '','' then
                                    (case parse_members n r3 of
                                       None \<Rightarrow> None
                                     | Some (kvs, r') \<Rightarrow> Some ((k, v) # kvs, r'))
                                  else if c2 = CHR ''}'' then Some ([(k, v)], r3)
                                  else None)))))"

definition json_loads :: "string \<Rightarrow> pyval option" where
  "json_loads s =
     (case parse_value (2 * length s + 1) s of
        None \<Rightarrow> None
      | Some (v, r) \<Rightarrow> if skip_ws r = [] then Some v else None)"

section \<open>egress_helper.py\<close>

text \<open>
  Modelled from the spec: the classes \<open>NetworkPolicy\<close> and \<open>NetworkRule\<close> of
  \<open>src.api.schema\<close> are not among the source files. A policy has a default action, which
  may be absent, and an ordered list of rules, each with an action and a target; the
  fields are strings. \<open>model_dump(by_alias=True, exclude_none=True)\<close> gives the
  dictionary of the fields in the order of declaration, under the names
  \<open>defaultAction\<close>, \<open>egress\<close>, \<open>action\<close> and \<open>target\<close>, without the fields that are
  \<open>None\<close>.
\<close>

record NetworkRule =
  action :: string
  target :: string

record NetworkPolicy =
  default_action :: "string option"
  egress :: "NetworkRule list"

definition NetworkRule_model_dump :: "NetworkRule \<Rightarrow> pyval" where
  "NetworkRule_model_dump r = PDict [(''action'', PStr (action r)), (''target'', PStr (target r))]"

definition NetworkPolicy_model_dump :: "NetworkPolicy \<Rightarrow> pyval" where
  "NetworkPolicy_model_dump p =
     PDict ((case default_action p of None \<Rightarrow> [] | Some a \<Rightarrow> [(''defaultAction'', PStr a)]) @
            [(''egress'', PList (map NetworkRule_model_dump (egress p)))])"

definition EGRESS_RULES_ENV :: string where
  "EGRESS_RULES_ENV = ''OPENSANDBOX_EGRESS_RULES''"

definition build_security_context_for_egress :: pyval where
  "build_security_context_for_egress =
     PDict [(''capabilities'', PDict [(''add'', PList [PStr ''NET_ADMIN''])])]"

definition build_egress_sidecar_container :: "string \<Rightarrow> NetworkPolicy \<Rightarrow> pyval" where
  "build_egress_sidecar_container egress_image network_policy =
     (let policy_payload = json_dumps (NetworkPolicy_model_dump network_policy)
      in PDict [(''name'', PStr ''egress''),
                (''image'', PStr egress_image),
                (''env'', PList [PDict [(''name'', PStr EGRESS_RULES_ENV),
                                        (''value'', PStr policy_payload)]]),
                (''securityContext'', build_security_context_for_egress)])"

definition build_security_context_for_main_container :: "bool \<Rightarrow> pyval" where
  "build_security_context_for_main_container has_network_policy =
     (if \<not> has_network_policy then PDict []
      else PDict [(''capabilities'', PDict [(''drop'', PList [PStr ''NET_ADMIN''])])])"

definition build_ipv6_disable_sysctls :: "pyval list" where
  "build_ipv6_disable_sysctls =
     [PDict [(''name'', PStr ''net.ipv6.conf.all.disable_ipv6''), (''value'', PStr ''1'')],
      PDict [(''name'', PStr ''net.ipv6.conf.default.disable_ipv6''), (''value'', PStr ''1'')],
      PDict [(''name'', PStr ''net.ipv6.conf.lo.disable_ipv6''), (''value'', PStr ''1'')]]"

text \<open>\<open>d[k]\<close> for a dictionary value; \<open>None\<close> when the key is missing.\<close>

fun dict_get :: "pyval \<Rightarrow> string \<Rightarrow> pyval option" where
  "dict_get (PDict kvs) k = map_of kvs k"
| "dict_get v k = None"


section \<open>Theorems\<close>

subsection \<open>Ports\<close>

text \<open>
  C8. For every integer \<open>p\<close>, \<open>ensure_valid_port p\<close> returns normally exactly when
  \<open>1 \<le> p \<le> 65535\<close>; for every other \<open>p\<close> it raises the HTTP exception with status 400
  and code \<open>INVALID_PORT\<close>.
\<close>

theorem ensure_valid_port_iff:
  "(ensure_valid_port p = Inr ()) = (1 \<le> p \<and> p \<le> 65535) \<and>
   ensure_valid_port p =
     (if 1 \<le> p \<and> p \<le> 65535 then Inr ()
      else Inl (HTTPException 400 INVALID_PORT ''Port must be between 1 and 65535.''))"
  by (auto simp: ensure_valid_port_def HTTP_400_BAD_REQUEST_def)

theorem ensure_valid_port_witness:
  "ensure_valid_port 1 = Inr () \<and> ensure_valid_port 65535 = Inr () \<and>
   ensure_valid_port 0 = Inl (HTTPException 400 INVALID_PORT ''Port must be between 1 and 65535.'') \<and>
   ensure_valid_port 65536 = Inl (HTTPException 400 INVALID_PORT ''Port must be between 1 and 65535.'')"
  using ensure_valid_port_iff [of 1] ensure_valid_port_iff [of 65535]
    ensure_valid_port_iff [of 0] ensure_valid_port_iff [of 65536]
  by simp

subsection \<open>Command status conversion\<close>






subsection \<open>The matcher decides the language of a pattern\<close>

lemma nullable_lang: "nullable r = ([] \<in> lang r)"
  by (induction r) (auto simp: conc_def intro: star_empty)

lemma lang_seq: "lang (seq r s) = conc (lang r) (lang s)"
  by (auto simp: seq_def conc_def)

lemma lang_alt: "lang (alt r s) = lang r \<union> lang s"
  by (auto simp: alt_def)

lemma cons_in_conc:
  "(c # w \<in> conc A B) =
     ((\<exists>u v. w = u @ v \<and> c # u \<in> A \<and> v \<in> B) \<or> ([] \<in> A \<and> c # w \<in> B))"
proof
  assume "c # w \<in> conc A B"
  then obtain x y where xy: "c # w = x @ y" "x \<in> A" "y \<in> B"
    by (auto simp: conc_def)
  show "(\<exists>u v. w = u @ v \<and> c # u \<in> A \<and> v \<in> B) \<or> ([] \<in> A \<and> c # w \<in> B)"
  proof (cases x)
    case Nil
    with xy show ?thesis by simp
  next
    case (Cons a x')
    with xy have "w = x' @ y" "c # x' \<in> A" by simp_all
    with xy show ?thesis by blast
  qed
next
  assume "(\<exists>u v. w = u @ v \<and> c # u \<in> A \<and> v \<in> B) \<or> ([] \<in> A \<and> c # w \<in> B)"
  then show "c # w \<in> conc A B"
  proof
    assume "\<exists>u v. w = u @ v \<and> c # u \<in> A \<and> v \<in> B"
    then obtain u v where "w = u @ v" "c # u \<in> A" "v \<in> B" by blast
    then have "c # w = (c # u) @ v \<and> c # u \<in> A \<and> v \<in> B" by simp
    then show ?thesis unfolding conc_def by blast
  next
    assume "[] \<in> A \<and> c # w \<in> B"
    then have "c # w = [] @ (c # w) \<and> [] \<in> A \<and> c # w \<in> B" by simp
    then show ?thesis unfolding conc_def by blast
  qed
qed

lemma star_cons_split:
  assumes "x \<in> star A" and "x = c # w"
  shows "\<exists>u v. w = u @ v \<and> c # u \<in> A \<and> v \<in> star A"
  using assms
proof (induction arbitrary: c w rule: star.induct)
  case star_empty
  then show ?case by simp
next
  case (star_step u v)
  show ?case
  proof (cases u)
    case Nil
    with star_step show ?thesis by simp
  next
    case (Cons a u')
    with star_step.prems have "w = u' @ v" "a = c" by simp_all
    with Cons star_step.hyps show ?thesis by blast
  qed
qed

lemma cons_in_star:
  "(c # w \<in> star A) = (\<exists>u v. w = u @ v \<and> c # u \<in> A \<and> v \<in> star A)"
proof
  assume "c # w \<in> star A"
  then show "\<exists>u v. w = u @ v \<and> c # u \<in> A \<and> v \<in> star A"
    using star_cons_split by blast
next
  assume "\<exists>u v. w = u @ v \<and> c # u \<in> A \<and> v \<in> star A"
  then obtain u v where uv: "w = u @ v" "c # u \<in> A" "v \<in> star A" by blast
  then have "(c # u) @ v \<in> star A" by (intro star_step)
  with uv show "c # w \<in> star A" by simp
qed

lemma in_conc_deriv:
  assumes "\<And>u. (u \<in> lang (deriv c r)) = (c # u \<in> lang r)"
  shows "(w \<in> conc (lang (deriv c r)) B) = (\<exists>u v. w = u @ v \<and> c # u \<in> lang r \<and> v \<in> B)"
  unfolding conc_def using assms by simp

lemma lang_deriv: "(w \<in> lang (deriv c r)) = (c # w \<in> lang r)"
proof (induction r arbitrary: w)
  case (Seq r s)
  have left: "(w \<in> conc (lang (deriv c r)) (lang s)) =
      (\<exists>u v. w = u @ v \<and> c # u \<in> lang r \<and> v \<in> lang s)"
    by (rule in_conc_deriv) (rule Seq.IH(1))
  show ?case
    by (simp add: lang_seq lang_alt left Seq.IH(2) cons_in_conc nullable_lang)
next
  case (Star r)
  have "(w \<in> conc (lang (deriv c r)) (star (lang r))) =
      (\<exists>u v. w = u @ v \<and> c # u \<in> lang r \<and> v \<in> star (lang r))"
    by (rule in_conc_deriv) (rule Star.IH)
  then show ?case
    by (simp add: lang_seq cons_in_star)
qed (auto simp: lang_alt)

lemma matches_lang: "matches r w = (w \<in> lang r)"
  by (induction w arbitrary: r) (simp_all add: nullable_lang lang_deriv)


subsection \<open>Expiration\<close>

lemma ensure_future_expiration_naive:
  "tzinfo t = None \<Longrightarrow>
   ensure_future_expiration now t =
     (if utc_instant t \<le> utc_instant now
      then Inl (HTTPException 400 INVALID_EXPIRATION ''New expiration time must be in the future.'')
      else Inr (t\<lparr>tzinfo := Some 0\<rparr>))"
  by (simp add: ensure_future_expiration_def replace_tzinfo_utc_def utc_instant_def
      HTTP_400_BAD_REQUEST_def)

lemma ensure_future_expiration_aware:
  "tzinfo t = Some off \<Longrightarrow> in_datetime_range (utc_instant t) \<Longrightarrow>
   ensure_future_expiration now t =
     (if utc_instant t \<le> utc_instant now
      then Inl (HTTPException 400 INVALID_EXPIRATION ''New expiration time must be in the future.'')
      else Inr (t\<lparr>wall := utc_instant t, tzinfo := Some 0\<rparr>))"
  by (simp add: ensure_future_expiration_def astimezone_utc_def utc_instant_def
      HTTP_400_BAD_REQUEST_def)

text \<open>
  C3. \<open>ensure_future_expiration\<close> is claimed to raise \<open>INVALID_EXPIRATION\<close> for every
  datetime that is not after now. For the aware datetime 0001-01-01T00:00:00+01:00 the
  conversion to UTC leaves the range of datetimes, and the function raises
  \<open>OverflowError\<close> instead, whatever the clock reads.
\<close>

theorem ensure_future_expiration_overflow:
  "ensure_future_expiration now \<lparr>wall = 0, tzinfo = Some 3600000000\<rparr> = Inl OverflowError"
  by (simp add: ensure_future_expiration_def astimezone_utc_def in_datetime_range_def)

text \<open>
  At the other end of the range, 9999-12-31T23:59:59.999999-01:00 is in the future of every
  clock reading, and the function raises \<open>OverflowError\<close> instead of returning it.
\<close>

lemma ensure_future_expiration_overflow_max:
  "ensure_future_expiration now \<lparr>wall = MAX_WALL, tzinfo = Some (- 3600000000)\<rparr>
   = Inl OverflowError"
  by (simp add: ensure_future_expiration_def astimezone_utc_def in_datetime_range_def)

subsection \<open>Metadata labels\<close>

lemma re_match_no_line_feed: "CHR 0x0A \<notin> set s \<Longrightarrow> re_match r s = matches r s"
  by (cases s rule: rev_cases) (auto simp: re_match_def)

lemma matches_Opt: "matches (Opt r) s = (s = [] \<or> matches r s)"
  by (auto simp: matches_lang Opt_def)

lemma not_matches_name_empty: "\<not> matches LABEL_NAME_RE []"
  by (simp add: LABEL_NAME_RE_def)

lemma set_takeWhile_subset: "set (takeWhile P xs) \<subseteq> set xs"
  by (meson set_takeWhileD subsetI)

lemma set_tl_dropWhile_subset: "set (tl (dropWhile P xs)) \<subseteq> set xs"
proof
  fix x
  assume "x \<in> set (tl (dropWhile P xs))"
  then have "x \<in> set (dropWhile P xs)"
    by (cases "dropWhile P xs") simp_all
  then show "x \<in> set xs"
    by (rule set_dropWhileD)
qed

lemma split_slash_sets:
  "set (fst (split_slash k)) \<subseteq> set k" "set (snd (split_slash k)) \<subseteq> set k"
  unfolding split_slash_def fst_conv snd_conv
  by (rule set_takeWhile_subset, rule set_tl_dropWhile_subset)

lemma split_slash_prefix_length: "length (fst (split_slash k)) \<le> length k"
  unfolding split_slash_def fst_conv by (rule length_takeWhile_le)

lemma is_valid_label_key_spec:
  assumes "CHR 0x0A \<notin> set k"
  shows "is_valid_label_key k = (length k \<le> 253 \<and> spec_key_rule k)"
proof -
  obtain p n where pn: "split_slash k = (p, n)"
    by (cases "split_slash k")
  have "CHR 0x0A \<notin> set p" "CHR 0x0A \<notin> set n"
    using assms split_slash_sets [of k] pn by auto
  then have m: "re_match DNS_SUBDOMAIN_RE p = matches DNS_SUBDOMAIN_RE p"
      "re_match LABEL_NAME_RE n = matches LABEL_NAME_RE n"
      "re_match LABEL_NAME_RE k = matches LABEL_NAME_RE k"
    using assms by (simp_all add: re_match_no_line_feed)
  have len: "length p \<le> length k"
    using split_slash_prefix_length [of k] pn by simp
  show ?thesis
    using m len not_matches_name_empty
    by (auto simp: is_valid_label_key_def spec_key_rule_def pn)
qed

lemma is_valid_label_value_spec:
  "CHR 0x0A \<notin> set v \<Longrightarrow> is_valid_label_value v = spec_value_rule v"
  by (auto simp: is_valid_label_value_def spec_value_rule_def LABEL_VALUE_RE_def
      re_match_no_line_feed matches_Opt)

lemma check_items_str_items:
  "(check_items (str_items m) = Inr ()) =
     list_all (\<lambda>(k, v). is_valid_label_key k \<and> is_valid_label_value v) m"
  by (induction m) (auto simp: str_items_def split: if_splits)

lemma check_items_error:
  "check_items items = Inr () \<or>
   (\<exists>msg. check_items items = Inl (HTTPException 400 INVALID_METADATA_LABEL msg))"
  by (induction items rule: check_items.induct) (auto simp: HTTP_400_BAD_REQUEST_def)

lemma ensure_metadata_labels_error:
  "ensure_metadata_labels md = Inr () \<or>
   (\<exists>msg. ensure_metadata_labels md = Inl (HTTPException 400 INVALID_METADATA_LABEL msg))"
  using check_items_error by (auto simp: ensure_metadata_labels_def split: option.splits)

lemma ensure_metadata_labels_str_items:
  "(ensure_metadata_labels (Some (str_items m)) = Inr ()) =
     list_all (\<lambda>(k, v). is_valid_label_key k \<and> is_valid_label_value v) m"
proof (cases m)
  case Nil
  then show ?thesis by (simp add: ensure_metadata_labels_def str_items_def)
next
  case (Cons a m')
  then have "str_items m \<noteq> []" by (simp add: str_items_def)
  then show ?thesis
    by (simp add: ensure_metadata_labels_def check_items_str_items)
qed

text \<open>
  C4, as amended. For every metadata mapping of strings to strings in which no key and no
  value contains a line feed, \<open>ensure_metadata_labels\<close> returns normally exactly when every
  key is at most 253 characters long in all and satisfies the key rule, and every value
  satisfies the value rule; whenever it does not return normally it raises the HTTP
  exception with status 400 and code \<open>INVALID_METADATA_LABEL\<close>.
\<close>

theorem ensure_metadata_labels_rules:
  assumes "list_all (\<lambda>(k, v). CHR 0x0A \<notin> set k \<and> CHR 0x0A \<notin> set v) m"
  shows "(ensure_metadata_labels (Some (str_items m)) = Inr ()) =
           list_all (\<lambda>(k, v). length k \<le> 253 \<and> spec_key_rule k \<and> spec_value_rule v) m \<and>
         (ensure_metadata_labels (Some (str_items m)) = Inr () \<or>
          (\<exists>msg. ensure_metadata_labels (Some (str_items m)) =
                   Inl (HTTPException 400 INVALID_METADATA_LABEL msg)))"
proof -
  have "list_all (\<lambda>(k, v). is_valid_label_key k \<and> is_valid_label_value v) m =
        list_all (\<lambda>(k, v). length k \<le> 253 \<and> spec_key_rule k \<and> spec_value_rule v) m"
    using assms
    by (induction m) (auto simp: is_valid_label_key_spec is_valid_label_value_spec)
  then show ?thesis
    using ensure_metadata_labels_error [of "Some (str_items m)"]
    by (simp add: ensure_metadata_labels_str_items)
qed

theorem ensure_metadata_labels_rules_witness:
  "list_all (\<lambda>(k, v). CHR 0x0A \<notin> set k \<and> CHR 0x0A \<notin> set v)
     [(''team'', ''platform''), (''example.com/tier'', '''')] \<and>
   ensure_metadata_labels
     (Some (str_items [(''team'', ''platform''), (''example.com/tier'', '''')])) = Inr () \<and>
   list_all (\<lambda>(k, v). CHR 0x0A \<notin> set k \<and> CHR 0x0A \<notin> set v) [(''a b'', ''x'')] \<and>
   ensure_metadata_labels (Some (str_items [(''a b'', ''x'')])) \<noteq> Inr ()"
proof -
  have h1: "list_all (\<lambda>(k, v). CHR 0x0A \<notin> set k \<and> CHR 0x0A \<notin> set v)
     [(''team'', ''platform''), (''example.com/tier'', '''')]"
    by simp
  have h2: "list_all (\<lambda>(k, v). CHR 0x0A \<notin> set k \<and> CHR 0x0A \<notin> set v) [(''a b'', ''x'')]"
    by simp
  have r1: "list_all (\<lambda>(k, v). length k \<le> 253 \<and> spec_key_rule k \<and> spec_value_rule v)
     [(''team'', ''platform''), (''example.com/tier'', '''')]"
    by (simp add: spec_key_rule_def spec_value_rule_def split_slash_def LABEL_NAME_RE_def
        DNS_SUBDOMAIN_RE_def DNS_LABEL_PATTERN_def Opt_def alnum_def lower_or_digit_def
        seq_def alt_def in_cls_def)
  have r2: "\<not> list_all (\<lambda>(k, v). length k \<le> 253 \<and> spec_key_rule k \<and> spec_value_rule v)
     [(''a b'', ''x'')]"
    by (simp add: spec_key_rule_def spec_value_rule_def split_slash_def LABEL_NAME_RE_def
        Opt_def alnum_def seq_def alt_def in_cls_def)
  show ?thesis
    using ensure_metadata_labels_rules [OF h1] ensure_metadata_labels_rules [OF h2] h1 h2 r1 r2
    by blast
qed


lemma matches_replicate_fixed:
  "deriv c r = r \<Longrightarrow> matches r (replicate n c) = nullable r"
  by (induction n) simp_all

lemma matches_replicate_Suc:
  "deriv c (deriv c r) = deriv c r \<Longrightarrow>
   matches r (replicate (Suc n) c) = nullable (deriv c r)"
  using matches_replicate_fixed [of c "deriv c r" n] by simp

lemma subdomain_replicate_a:
  "matches DNS_SUBDOMAIN_RE (replicate (Suc n) (CHR ''a''))"
proof -
  have "deriv (CHR ''a'') (deriv (CHR ''a'') DNS_SUBDOMAIN_RE) = deriv (CHR ''a'') DNS_SUBDOMAIN_RE"
    by (simp add: DNS_SUBDOMAIN_RE_def DNS_LABEL_PATTERN_def Opt_def lower_or_digit_def
        seq_def alt_def in_cls_def)
  moreover have "nullable (deriv (CHR ''a'') DNS_SUBDOMAIN_RE)"
    by (simp add: DNS_SUBDOMAIN_RE_def DNS_LABEL_PATTERN_def Opt_def lower_or_digit_def
        seq_def alt_def in_cls_def)
  ultimately show ?thesis
    by (simp only: matches_replicate_Suc)
qed

lemma name_replicate_b:
  "matches LABEL_NAME_RE (replicate (Suc n) (CHR ''b''))"
proof -
  have "deriv (CHR ''b'') (deriv (CHR ''b'') LABEL_NAME_RE) = deriv (CHR ''b'') LABEL_NAME_RE"
    by (simp add: LABEL_NAME_RE_def Opt_def alnum_def seq_def alt_def in_cls_def)
  moreover have "nullable (deriv (CHR ''b'') LABEL_NAME_RE)"
    by (simp add: LABEL_NAME_RE_def Opt_def alnum_def seq_def alt_def in_cls_def)
  ultimately show ?thesis
    by (simp only: matches_replicate_Suc)
qed

lemma split_slash_replicate:
  "c \<noteq> CHR ''/'' \<Longrightarrow> split_slash (replicate n c @ CHR ''/'' # rest) = (replicate n c, rest)"
  by (induction n) (simp_all add: split_slash_def)

text \<open>
  C4, the claim as stated fails: the key made of a 200-character prefix, a slash and a
  60-character name satisfies the key rule of the claim (prefix a DNS subdomain of at most
  253 characters, name of at most 63 characters matching the pattern), yet the key is 261
  characters long and \<open>ensure_metadata_labels\<close> rejects it.
\<close>

theorem label_key_total_length_counterexample:
  "spec_key_rule (replicate 200 (CHR ''a'') @ CHR ''/'' # replicate 60 (CHR ''b'')) \<and>
   spec_value_rule ''v'' \<and>
   ensure_metadata_labels
     (Some (str_items [(replicate 200 (CHR ''a'') @ CHR ''/'' # replicate 60 (CHR ''b''), ''v'')]))
   = Inl (HTTPException 400 INVALID_METADATA_LABEL
            (''Metadata key '' @ [CHR 0x27] @
             (replicate 200 (CHR ''a'') @ CHR ''/'' # replicate 60 (CHR ''b'')) @ [CHR 0x27] @
             '' is not a valid Kubernetes label key.''))"
proof -
  have sp: "split_slash (replicate 200 (CHR ''a'') @ CHR ''/'' # replicate 60 (CHR ''b''))
            = (replicate 200 (CHR ''a''), replicate 60 (CHR ''b''))"
    by (rule split_slash_replicate) simp
  have p: "matches DNS_SUBDOMAIN_RE (replicate 200 (CHR ''a''))"
    using subdomain_replicate_a [of 199] by simp
  have n: "matches LABEL_NAME_RE (replicate 60 (CHR ''b''))"
    using name_replicate_b [of 59] by simp
  have ne: "replicate 200 (CHR ''a'') \<noteq> []"
    by (simp add: replicate_empty)
  have key: "spec_key_rule (replicate 200 (CHR ''a'') @ CHR ''/'' # replicate 60 (CHR ''b''))"
    unfolding spec_key_rule_def sp using p n ne by simp
  have val: "spec_value_rule ''v''"
    by (simp add: spec_value_rule_def LABEL_NAME_RE_def Opt_def alnum_def seq_def alt_def
        in_cls_def)
  have bad: "\<not> is_valid_label_key (replicate 200 (CHR ''a'') @ CHR ''/'' # replicate 60 (CHR ''b''))"
    by (simp add: is_valid_label_key_def)
  have "ensure_metadata_labels
     (Some (str_items [(replicate 200 (CHR ''a'') @ CHR ''/'' # replicate 60 (CHR ''b''), ''v'')]))
   = Inl (HTTPException 400 INVALID_METADATA_LABEL
            (''Metadata key '' @ [CHR 0x27] @
             (replicate 200 (CHR ''a'') @ CHR ''/'' # replicate 60 (CHR ''b'')) @ [CHR 0x27] @
             '' is not a valid Kubernetes label key.''))"
    using bad by (simp add: ensure_metadata_labels_def str_items_def HTTP_400_BAD_REQUEST_def)
  with key val show ?thesis by simp
qed

text \<open>
  The line feed: Python's \<open>$\<close> lets a final line feed through, so a name with a line
  feed appended is accepted although it does not match the name pattern.
\<close>

lemma label_trailing_line_feed:
  "\<not> spec_key_rule (''team'' @ [CHR 0x0A]) \<and> \<not> spec_value_rule (''x'' @ [CHR 0x0A]) \<and>
   ensure_metadata_labels (Some (str_items [(''team'' @ [CHR 0x0A], ''x'' @ [CHR 0x0A])])) = Inr ()"
  by (simp add: spec_key_rule_def spec_value_rule_def ensure_metadata_labels_def str_items_def
      is_valid_label_key_def is_valid_label_value_def re_match_def LABEL_VALUE_RE_def
      LABEL_NAME_RE_def Opt_def alnum_def seq_def alt_def in_cls_def)

subsection \<open>Metadata that is not a mapping of strings\<close>

lemma check_items_not_str:
  "\<not> (is_str k \<and> is_str v) \<Longrightarrow>
   check_items ((k, v) # rest) =
     Inl (HTTPException 400 INVALID_METADATA_LABEL ''Metadata keys and values must be strings.'')"
  by (cases k; cases v) (simp_all add: HTTP_400_BAD_REQUEST_def)

lemma check_items_append:
  "check_items pre = Inr () \<Longrightarrow> check_items (pre @ items) = check_items items"
  by (induction pre rule: check_items.induct) (simp_all split: if_splits)

lemma check_items_raises_on_non_str:
  "list_ex (\<lambda>(k, v). \<not> (is_str k \<and> is_str v)) items \<Longrightarrow> check_items items \<noteq> Inr ()"
  by (induction items rule: check_items.induct) (simp_all split: if_splits)

text \<open>
  C10. \<open>ensure_metadata_labels\<close> returns normally for \<open>None\<close> and for the empty mapping.
  A mapping with an item whose key or value is not a string is always rejected with
  status 400 and code \<open>INVALID_METADATA_LABEL\<close>; and when the items before such an item
  pass, the error is the one of the type check (keys and values must be strings),
  whatever the item holds: no syntax check is applied to it first.
\<close>

theorem ensure_metadata_labels_non_str:
  "ensure_metadata_labels None = Inr () \<and>
   ensure_metadata_labels (Some []) = Inr () \<and>
   (list_ex (\<lambda>(k, v). \<not> (is_str k \<and> is_str v)) items \<longrightarrow>
      (\<exists>msg. ensure_metadata_labels (Some items) =
               Inl (HTTPException 400 INVALID_METADATA_LABEL msg))) \<and>
   (ensure_metadata_labels (Some pre) = Inr () \<and> \<not> (is_str k \<and> is_str v) \<longrightarrow>
      ensure_metadata_labels (Some (pre @ (k, v) # rest)) =
        Inl (HTTPException 400 INVALID_METADATA_LABEL
               ''Metadata keys and values must be strings.''))"
proof -
  have a: "ensure_metadata_labels None = Inr ()" "ensure_metadata_labels (Some []) = Inr ()"
    by (simp_all add: ensure_metadata_labels_def)
  have b: "\<exists>msg. ensure_metadata_labels (Some items) =
               Inl (HTTPException 400 INVALID_METADATA_LABEL msg)"
    if h: "list_ex (\<lambda>(k, v). \<not> (is_str k \<and> is_str v)) items"
  proof -
    from h have "items \<noteq> []" by auto
    moreover from h have "check_items items \<noteq> Inr ()"
      by (rule check_items_raises_on_non_str)
    ultimately show ?thesis
      using check_items_error [of items] by (simp add: ensure_metadata_labels_def)
  qed
  have c: "ensure_metadata_labels (Some (pre @ (k, v) # rest)) =
        Inl (HTTPException 400 INVALID_METADATA_LABEL
               ''Metadata keys and values must be strings.'')"
    if h: "ensure_metadata_labels (Some pre) = Inr ()" "\<not> (is_str k \<and> is_str v)"
  proof -
    from h(1) have "check_items pre = Inr ()"
      by (cases pre) (simp_all add: ensure_metadata_labels_def)
    then have "check_items (pre @ (k, v) # rest) = check_items ((k, v) # rest)"
      by (rule check_items_append)
    with h(2) show ?thesis
      by (simp add: ensure_metadata_labels_def check_items_not_str)
  qed
  from a b c show ?thesis by blast
qed

theorem ensure_metadata_labels_non_str_witness:
  "list_ex (\<lambda>(k, v). \<not> (is_str k \<and> is_str v)) [(PStr ''team'', PStr ''a''), (PStr ''not a key'', PInt 7)] \<and>
   ensure_metadata_labels (Some [(PStr ''team'', PStr ''a'')]) = Inr () \<and>
   \<not> (is_str (PStr ''not a key'') \<and> is_str (PInt 7)) \<and>
   ensure_metadata_labels (Some ([(PStr ''team'', PStr ''a'')] @ (PStr ''not a key'', PInt 7) # [])) =
     Inl (HTTPException 400 INVALID_METADATA_LABEL ''Metadata keys and values must be strings.'')"
proof -
  have h1: "list_ex (\<lambda>(k, v). \<not> (is_str k \<and> is_str v))
      [(PStr ''team'', PStr ''a''), (PStr ''not a key'', PInt 7)]"
    by simp
  have h2: "ensure_metadata_labels (Some [(PStr ''team'', PStr ''a'')]) = Inr ()"
    by (simp add: ensure_metadata_labels_def is_valid_label_key_def is_valid_label_value_def
        re_match_def LABEL_VALUE_RE_def LABEL_NAME_RE_def Opt_def alnum_def seq_def alt_def
        in_cls_def)
  have h3: "\<not> (is_str (PStr ''not a key'') \<and> is_str (PInt 7))"
    by simp
  show ?thesis
    using ensure_metadata_labels_non_str
      [of "[(PStr ''team'', PStr ''a''), (PStr ''not a key'', PInt 7)]"
          "[(PStr ''team'', PStr ''a'')]" "PStr ''not a key''" "PInt 7" "[]"] h1 h2 h3
    by blast
qed


subsection \<open>Volume\<close>

text \<open>
  C7. Provided \<open>Host\<close> and \<open>PVC\<close> objects survive their own \<open>to_dict\<close> and
  \<open>from_dict\<close>, \<open>Volume.from_dict (v.to_dict())\<close> is \<open>v\<close> for every volume \<open>v\<close>: each
  field that is \<open>UNSET\<close> stays \<open>UNSET\<close> and each set field keeps its value.
\<close>

theorem Volume_round_trip:
  assumes "\<And>h. Host_from_dict (PDict (Host_to_dict h)) = Inr h"
    and "\<And>c. PVC_from_dict (PDict (PVC_to_dict c)) = Inr c"
  shows "Volume_from_dict Host_from_dict PVC_from_dict
           (Volume_to_dict Host_to_dict PVC_to_dict v) = Inr v"
proof -
  obtain n m h p r s where v: "v = \<lparr> name = n, mount_path = m, host = h, pvc = p,
      read_only = r, sub_path = s \<rparr>"
    by (cases v) simp
  show ?thesis
    unfolding v
    by (cases h; cases p; cases r; cases s)
      (simp_all add: Volume_to_dict_def Volume_from_dict_def dict_pop_def pop_or_unset_def assms)
qed

theorem Volume_round_trip_witness:
  "Volume_from_dict (one_field_from_dict ''path'') (one_field_from_dict ''claimName'')
     (Volume_to_dict (one_field_to_dict ''path'') (one_field_to_dict ''claimName'')
        \<lparr> name = PStr ''data'', mount_path = PStr ''/mnt/data'', host = Val ''/srv/data'',
          pvc = UNSET, read_only = Val (PBool False), sub_path = UNSET \<rparr>)
   = Inr \<lparr> name = PStr ''data'', mount_path = PStr ''/mnt/data'', host = Val ''/srv/data'',
           pvc = UNSET, read_only = Val (PBool False), sub_path = UNSET \<rparr> \<and>
   Volume_to_dict (one_field_to_dict ''path'') (one_field_to_dict ''claimName'')
        \<lparr> name = PStr ''data'', mount_path = PStr ''/mnt/data'', host = Val ''/srv/data'',
          pvc = UNSET, read_only = Val (PBool False), sub_path = UNSET \<rparr>
   = [(''name'', PStr ''data''), (''mountPath'', PStr ''/mnt/data''),
      (''host'', PDict [(''path'', PStr ''/srv/data'')]), (''readOnly'', PBool False)]"
proof -
  have h: "\<And>x. one_field_from_dict ''path'' (PDict (one_field_to_dict ''path'' x)) = Inr x"
    by (simp add: one_field_from_dict_def one_field_to_dict_def)
  have c: "\<And>x. one_field_from_dict ''claimName'' (PDict (one_field_to_dict ''claimName'' x)) = Inr x"
    by (simp add: one_field_from_dict_def one_field_to_dict_def)
  show ?thesis
    using Volume_round_trip [of "one_field_from_dict ''path''" "one_field_to_dict ''path''"
        "one_field_from_dict ''claimName''" "one_field_to_dict ''claimName''"
        "\<lparr> name = PStr ''data'', mount_path = PStr ''/mnt/data'', host = Val ''/srv/data'',
          pvc = UNSET, read_only = Val (PBool False), sub_path = UNSET \<rparr>", OF h c]
    by (simp add: Volume_to_dict_def one_field_to_dict_def)
qed


subsection \<open>Request IDs\<close>


lemma strip_decomposition:
  "s = takeWhile py_isspace s @ strip s @
         rev (takeWhile py_isspace (rev (dropWhile py_isspace s)))"
proof -
  define d where "d = dropWhile py_isspace s"
  have "rev d = takeWhile py_isspace (rev d) @ dropWhile py_isspace (rev d)"
    by simp
  then have "rev (rev d) = rev (takeWhile py_isspace (rev d) @ dropWhile py_isspace (rev d))"
    by (rule arg_cong)
  then have "d = rev (dropWhile py_isspace (rev d)) @ rev (takeWhile py_isspace (rev d))"
    by (simp only: rev_rev_ident rev_append)
  then have "d = strip s @ rev (takeWhile py_isspace (rev d))"
    by (simp only: strip_def d_def)
  moreover have "s = takeWhile py_isspace s @ d"
    by (simp add: d_def)
  ultimately show ?thesis
    unfolding d_def by metis
qed

lemma strip_ends:
  assumes "strip s \<noteq> []"
  shows "\<not> py_isspace (hd (strip s)) \<and> \<not> py_isspace (last (strip s))"
proof -
  define d where "d = dropWhile py_isspace s"
  define e where "e = dropWhile py_isspace (rev d)"
  have s: "strip s = rev e"
    by (simp add: strip_def d_def e_def)
  have e: "e \<noteq> []" using assms s by simp
  have d: "d \<noteq> []"
  proof
    assume "d = []"
    then have "e = []" by (simp add: e_def)
    with e show False by simp
  qed
  have "last (strip s) = hd e"
    using e s by (simp add: last_rev)
  moreover have "\<not> py_isspace (hd e)"
    using e unfolding e_def by (rule hd_dropWhile)
  moreover have "hd (strip s) = last e"
    using e s by (simp add: hd_rev)
  moreover have "last e = last (rev d)"
  proof -
    have "rev d = takeWhile py_isspace (rev d) @ e" by (simp add: e_def)
    then show ?thesis using e by (metis last_appendR)
  qed
  moreover have "last (rev d) = hd d"
    using d by (simp add: last_rev)
  moreover have "\<not> py_isspace (hd d)"
    using d unfolding d_def by (rule hd_dropWhile)
  ultimately show ?thesis by simp
qed




































subsection \<open>The bind address\<close>

lemma hostname_fallback_not_empty: "hostname_fallback env family = Inr ip \<Longrightarrow> ip \<noteq> []"
  by (auto simp: hostname_fallback_def localhost_def split: sum.splits list.splits if_splits)

lemma hostname_fallback_returns:
  assumes "\<And>e. hostname_addresses env family = Inl e \<Longrightarrow> e = OSError"
  shows "\<exists>ip. hostname_fallback env family = Inr ip"
  using assms by (auto simp: hostname_fallback_def split: sum.splits list.splits)

lemma resolve_bind_ip_inet:
  "resolve_bind_ip env AF_INET =
     (case udp_local_address env AF_INET (''8.8.8.8'', 80) of
        None \<Rightarrow> hostname_fallback env AF_INET
      | Some ip \<Rightarrow> if ip \<noteq> [] then Inr ip else hostname_fallback env AF_INET)"
  by (subst resolve_bind_ip.simps) (simp add: probe_target_def split: option.splits)

lemma resolve_bind_ip_inet6:
  "resolve_bind_ip env AF_INET6 =
     (case udp_local_address env AF_INET6 (''2001:4860:4860::8888'', 80) of
        None \<Rightarrow> resolve_bind_ip env AF_INET
      | Some ip \<Rightarrow> if ip \<noteq> [] \<and> \<not> startswith ip ''fe80'' then Inr ip
                  else hostname_fallback env AF_INET6)"
  by (subst resolve_bind_ip.simps) (simp add: probe_target_def split: option.splits)

text \<open>An address that is returned is never the empty string.\<close>

lemma resolve_bind_ip_not_empty:
  assumes "resolve_bind_ip env family = Inr ip"
  shows "ip \<noteq> []"
proof -
  have 4: "ip \<noteq> []" if "resolve_bind_ip env AF_INET = Inr ip" for ip
    using that hostname_fallback_not_empty [of env AF_INET ip]
    by (auto simp add: resolve_bind_ip_inet simp del: resolve_bind_ip.simps
        split: option.splits if_splits)
  have 6: "ip \<noteq> []" if "resolve_bind_ip env AF_INET6 = Inr ip" for ip
    using that 4 [of ip] hostname_fallback_not_empty [of env AF_INET6 ip]
    by (auto simp add: resolve_bind_ip_inet6 simp del: resolve_bind_ip.simps
        split: option.splits if_splits)
  from 4 6 assms show ?thesis by (cases family) simp_all
qed

text \<open>
  Where the hostname lookup raises nothing but \<open>OSError\<close>, the resolver returns an address.
\<close>

lemma resolve_bind_ip_returns:
  assumes "\<And>f e. hostname_addresses env f = Inl e \<Longrightarrow> e = OSError"
  shows "\<exists>ip. resolve_bind_ip env family = Inr ip"
proof -
  have fb: "\<exists>ip. hostname_fallback env f = Inr ip" for f
    by (rule hostname_fallback_returns) (rule assms)
  have 4: "\<exists>ip. resolve_bind_ip env AF_INET = Inr ip"
    using fb [of AF_INET]
    by (auto simp add: resolve_bind_ip_inet simp del: resolve_bind_ip.simps
        split: option.splits)
  have 6: "\<exists>ip. resolve_bind_ip env AF_INET6 = Inr ip"
    using 4 fb [of AF_INET6]
    by (auto simp add: resolve_bind_ip_inet6 simp del: resolve_bind_ip.simps
        split: option.splits)
  from 4 6 show ?thesis by (cases family) simp_all
qed

text \<open>
  The address of the socket probe is returned when it is not empty and, for IPv6, does not
  start with fe80; so the probe never yields a link-local IPv6 address.
\<close>

lemma resolve_bind_ip_probe:
  assumes "udp_local_address env family (probe_target family) = Some ip"
    and "ip \<noteq> []" and "family = AF_INET \<or> \<not> startswith ip ''fe80''"
  shows "resolve_bind_ip env family = Inr ip"
  using assms by (subst resolve_bind_ip.simps) simp

lemma resolve_bind_ip_probe_link_local:
  assumes "udp_local_address env AF_INET6 (probe_target AF_INET6) = Some ip"
    and "startswith ip ''fe80''"
  shows "resolve_bind_ip env AF_INET6 = hostname_fallback env AF_INET6"
  using assms by (subst resolve_bind_ip.simps) simp

text \<open>
  With the default family, IPv4, no IPv6 probe is made at all: the address of the IPv4
  probe is returned even where the IPv6 probe would have succeeded.
\<close>

lemma resolve_bind_ip_default_family:
  "resolve_bind_ip
     \<lparr> udp_local_address = (\<lambda>f t. if f = AF_INET6 then Some ''2001:db8::7'' else Some ''192.0.2.7''),
       hostname_addresses = (\<lambda>f. Inl OSError) \<rparr> AF_INET
   = Inr ''192.0.2.7''"
  by (simp add: resolve_bind_ip_inet del: resolve_bind_ip.simps)

text \<open>
  C5. Bind-IP resolution is claimed never to return a link-local IPv6 address and always to
  yield an address. Neither holds. Asked for IPv6 on a host whose IPv6 probe and whose
  hostname both give the link-local address fe80::1c2:3ff:fe04:506, the resolver skips the
  address of the probe because it starts with fe80, and then returns the same address from
  the hostname lookup, which it does not filter. And on a host where both probes fail and
  whose host name cannot be encoded, so that \<open>getaddrinfo\<close> raises \<open>UnicodeError\<close>, the
  resolver raises that exception instead of returning 127.0.0.1.
\<close>

theorem resolve_bind_ip_link_local_and_unicode_error:
  "resolve_bind_ip
     \<lparr> udp_local_address = (\<lambda>f t. Some ''fe80::1c2:3ff:fe04:506''),
       hostname_addresses = (\<lambda>f. Inr [''fe80::1c2:3ff:fe04:506'']) \<rparr> AF_INET6
   = Inr ''fe80::1c2:3ff:fe04:506'' \<and>
   startswith ''fe80::1c2:3ff:fe04:506'' ''fe80'' \<and>
   resolve_bind_ip
     \<lparr> udp_local_address = (\<lambda>f t. None),
       hostname_addresses = (\<lambda>f. Inl UnicodeError) \<rparr> AF_INET
   = Inl UnicodeError"
  by (simp add: resolve_bind_ip_inet resolve_bind_ip_inet6 hostname_fallback_def startswith_def
      del: resolve_bind_ip.simps)

subsection \<open>Reading back what \<open>json.dumps\<close> wrote\<close>

lemma hex_val_digits: "list_all (\<lambda>n. hex_val (hex_digit n) = Some n) [0..<16]"
  by code_simp

lemma hex_val_hex_digit: "hex_val (hex_digit n) = Some (n mod 16)"
proof -
  have "n mod 16 \<in> set [0..<16]" by simp
  with hex_val_digits have "hex_val (hex_digit (n mod 16)) = Some (n mod 16)"
    unfolding list_all_iff by blast
  then show ?thesis by (simp add: hex_digit_def)
qed

lemma hex4_val_hex4:
  assumes "n < 256"
  shows "hex4_val (hex_digit (n div 4096)) (hex_digit (n div 256)) (hex_digit (n div 16))
           (hex_digit n) = Some n"
proof -
  have "n div 4096 mod 16 = 0" "n div 256 mod 16 = 0" "n div 16 mod 16 = n div 16"
    using assms by simp_all
  then show ?thesis
    by (simp add: hex4_val_def hex_val_hex_digit)
qed

lemma dquote_neq_backslash: "dquote \<noteq> backslash"
  by (simp add: dquote_def backslash_def)

lemma parse_chars_dquote: "parse_chars (dquote # t) = Some ([], t)"
  by simp

lemma parse_chars_escape_char:
  "parse_chars (escape_char c @ t) = with_char c (parse_chars t)"
proof -
  consider (bs) "c = backslash" | (dq) "c = dquote"
    | (b) "c = CHR 0x08" | (f) "c = CHR 0x0C" | (n) "c = CHR 0x0A" | (r) "c = CHR 0x0D"
    | (t) "c = CHR 0x09"
    | (plain) "c \<noteq> backslash" "c \<noteq> dquote" "c \<noteq> CHR 0x08" "c \<noteq> CHR 0x0C" "c \<noteq> CHR 0x0A"
        "c \<noteq> CHR 0x0D" "c \<noteq> CHR 0x09" "(32 :: nat) \<le> of_char c \<and> (of_char c :: nat) \<le> 126"
    | (uni) "c \<noteq> backslash" "c \<noteq> dquote" "c \<noteq> CHR 0x08" "c \<noteq> CHR 0x0C" "c \<noteq> CHR 0x0A"
        "c \<noteq> CHR 0x0D" "c \<noteq> CHR 0x09" "\<not> ((32 :: nat) \<le> of_char c \<and> (of_char c :: nat) \<le> 126)"
    by blast
  then show ?thesis
  proof cases
    case bs
    then show ?thesis
      by (simp add: escape_char_def unescape_def dquote_def backslash_def)
  next
    case dq
    then show ?thesis
      by (simp add: escape_char_def unescape_def dquote_def backslash_def)
  next
    case b
    then show ?thesis
      by (simp add: escape_char_def unescape_def dquote_def backslash_def)
  next
    case f
    then show ?thesis
      by (simp add: escape_char_def unescape_def dquote_def backslash_def)
  next
    case n
    then show ?thesis
      by (simp add: escape_char_def unescape_def dquote_def backslash_def)
  next
    case r
    then show ?thesis
      by (simp add: escape_char_def unescape_def dquote_def backslash_def)
  next
    case t
    then show ?thesis
      by (simp add: escape_char_def unescape_def dquote_def backslash_def)
  next
    case plain
    then have "\<not> (of_char c :: nat) < 32" by simp
    with plain show ?thesis
      by (simp add: escape_char_def)
  next
    case uni
    have e: "escape_char c = backslash # CHR ''u'' # hex4 (of_char c)"
      using uni by (simp add: escape_char_def)
    have lt: "(of_char c :: nat) < 256" by simp
    obtain h1 h2 h3 h4 where h: "hex4 (of_char c) = [h1, h2, h3, h4]"
      and v: "hex4_val h1 h2 h3 h4 = Some (of_char c)"
      using hex4_val_hex4 [OF lt] by (simp add: hex4_def)
    have "parse_chars (backslash # CHR ''u'' # hex4 (of_char c) @ t)
          = with_char (char_of (of_char c :: nat)) (parse_chars t)"
      unfolding h using v lt
      by (simp add: dquote_neq_backslash [symmetric])
    then show ?thesis
      by (simp add: e)
  qed
qed

lemma parse_chars_escape: "parse_chars (escape s @ dquote # rest) = Some (s, rest)"
proof (induction s)
  case Nil
  show ?case by (simp add: escape_def)
next
  case (Cons c s)
  have "parse_chars (escape (c # s) @ dquote # rest)
        = parse_chars (escape_char c @ (escape s @ dquote # rest))"
    by (simp add: escape_def)
  also have "\<dots> = with_char c (parse_chars (escape s @ dquote # rest))"
    by (rule parse_chars_escape_char)
  finally show ?case
    by (simp add: Cons.IH with_char_def)
qed
lemma skip_ws_space: "skip_ws (CHR '' '' # s) = skip_ws s"
  by (simp add: skip_ws_def is_json_ws_def)

lemma skip_ws_token:
  "skip_ws (dquote # s) = dquote # s"
  "skip_ws (CHR ''{'' # s) = CHR ''{'' # s"
  "skip_ws (CHR ''}'' # s) = CHR ''}'' # s"
  "skip_ws (CHR ''['' # s) = CHR ''['' # s"
  "skip_ws (CHR '']'' # s) = CHR '']'' # s"
  "skip_ws (CHR '','' # s) = CHR '','' # s"
  "skip_ws (CHR '':'' # s) = CHR '':'' # s"
  "skip_ws [] = []"
  by (simp_all add: skip_ws_def is_json_ws_def dquote_def)

lemma dquote_neq_token:
  "dquote \<noteq> CHR ''{''" "dquote \<noteq> CHR ''}''" "dquote \<noteq> CHR ''[''" "dquote \<noteq> CHR '']''"
  "CHR ''{'' \<noteq> dquote" "CHR ''['' \<noteq> dquote"
  by (simp_all add: dquote_def)

lemma parse_value_space: "parse_value n (CHR '' '' # s) = parse_value n s"
  by (cases n) (simp_all add: skip_ws_space)

lemma parse_members_space: "parse_members n (CHR '' '' # s) = parse_members n s"
  by (cases n) (simp_all add: skip_ws_space)

lemma parse_items_space: "parse_items n (CHR '' '' # s) = parse_items n s"
  by (cases n) (simp_all add: parse_value_space)

lemma parse_value_string:
  "parse_value (Suc n) (json_string s @ rest) = Some (PStr s, rest)"
  by (simp add: json_string_def skip_ws_token parse_chars_escape)

lemma parse_members_last:
  assumes "parse_value n (text @ CHR ''}'' # rest) = Some (v, CHR ''}'' # rest)"
  shows "parse_members (Suc n) (json_string k @ CHR '':'' # CHR '' '' # text @ CHR ''}'' # rest)
         = Some ([(k, v)], rest)"
  using assms
  by (simp add: json_string_def skip_ws_token parse_chars_escape parse_value_space)

lemma parse_members_more:
  assumes "parse_value n (text @ CHR '','' # CHR '' '' # later) = Some (v, CHR '','' # CHR '' '' # later)"
    and "parse_members n later = Some (kvs, rest)"
  shows "parse_members (Suc n) (json_string k @ CHR '':'' # CHR '' '' # text @ CHR '','' # CHR '' '' # later)
         = Some ((k, v) # kvs, rest)"
  using assms
  by (simp add: json_string_def skip_ws_token parse_chars_escape parse_value_space
      parse_members_space)

lemma parse_items_last:
  assumes "parse_value n (text @ CHR '']'' # rest) = Some (v, CHR '']'' # rest)"
  shows "parse_items (Suc n) (text @ CHR '']'' # rest) = Some ([v], rest)"
  using assms by (simp add: skip_ws_token)

lemma parse_items_more:
  assumes "parse_value n (text @ CHR '','' # CHR '' '' # later) = Some (v, CHR '','' # CHR '' '' # later)"
    and "parse_items n later = Some (vs, rest)"
  shows "parse_items (Suc n) (text @ CHR '','' # CHR '' '' # later) = Some (v # vs, rest)"
  using assms by (simp add: skip_ws_token parse_items_space)

lemma parse_value_object:
  assumes "parse_members n (json_string k @ body) = Some (kvs, rest)"
  shows "parse_value (Suc n) (CHR ''{'' # json_string k @ body) = Some (PDict (dict_of_pairs kvs), rest)"
  using assms by (simp add: json_string_def skip_ws_token dquote_neq_token)

lemma parse_value_array:
  assumes "parse_items n (CHR ''{'' # body) = Some (xs, rest)"
  shows "parse_value (Suc n) (CHR ''['' # CHR ''{'' # body) = Some (PList xs, rest)"
  using assms by (simp add: skip_ws_token dquote_neq_token)

lemma parse_value_empty_array:
  "parse_value (Suc n) (CHR ''['' # CHR '']'' # rest) = Some (PList [], rest)"
  by (simp add: skip_ws_token dquote_neq_token)

lemma dict_of_pairs_rule:
  "dict_of_pairs [(''action'', a), (''target'', t)] = [(''action'', a), (''target'', t)]"
  by (simp add: dict_of_pairs_def)

lemma dumps_rule:
  "json_dumps (NetworkRule_model_dump r) =
     CHR ''{'' # json_string ''action'' @ CHR '':'' # CHR '' '' # json_string (action r) @
     CHR '','' # CHR '' '' # json_string ''target'' @ CHR '':'' # CHR '' '' #
     json_string (target r) @ ''}''"
  by (simp add: NetworkRule_model_dump_def)

lemma parse_rule:
  "parse_value (Suc (Suc (Suc (Suc n)))) (json_dumps (NetworkRule_model_dump r) @ rest)
   = Some (NetworkRule_model_dump r, rest)"
proof -
  let ?later = "json_string ''target'' @ CHR '':'' # CHR '' '' # json_string (target r) @
      CHR ''}'' # rest"
  have v2: "parse_value (Suc n) (json_string (target r) @ CHR ''}'' # rest)
            = Some (PStr (target r), CHR ''}'' # rest)"
    by (rule parse_value_string)
  have m2: "parse_members (Suc (Suc n)) ?later = Some ([(''target'', PStr (target r))], rest)"
    by (rule parse_members_last [OF v2])
  have v1: "parse_value (Suc (Suc n)) (json_string (action r) @ CHR '','' # CHR '' '' # ?later)
            = Some (PStr (action r), CHR '','' # CHR '' '' # ?later)"
    by (rule parse_value_string)
  have m1: "parse_members (Suc (Suc (Suc n)))
              (json_string ''action'' @ CHR '':'' # CHR '' '' # json_string (action r) @
               CHR '','' # CHR '' '' # ?later)
            = Some ([(''action'', PStr (action r)), (''target'', PStr (target r))], rest)"
    by (rule parse_members_more [OF v1 m2])
  have "parse_value (Suc (Suc (Suc (Suc n))))
          (CHR ''{'' # json_string ''action'' @ CHR '':'' # CHR '' '' # json_string (action r) @
               CHR '','' # CHR '' '' # ?later)
        = Some (PDict (dict_of_pairs [(''action'', PStr (action r)), (''target'', PStr (target r))]),
                rest)"
    by (rule parse_value_object [OF m1])
  then show ?thesis
    by (simp add: dumps_rule dict_of_pairs_rule NetworkRule_model_dump_def del: parse_value.simps)
qed

lemma parse_rules:
  "rs \<noteq> [] \<Longrightarrow>
   parse_items (length rs + 4 + n)
     (join '', '' (dumps_items (map NetworkRule_model_dump rs)) @ CHR '']'' # rest)
   = Some (map NetworkRule_model_dump rs, rest)"
proof (induction rs rule: list_nonempty_induct)
  case (single r)
  have "parse_items (Suc (Suc (Suc (Suc (Suc n)))))
          (json_dumps (NetworkRule_model_dump r) @ CHR '']'' # rest)
        = Some ([NetworkRule_model_dump r], rest)"
    by (rule parse_items_last [OF parse_rule])
  moreover have "length [r] + 4 + n = Suc (Suc (Suc (Suc (Suc n))))"
    by simp
  moreover have "join '', '' (dumps_items (map NetworkRule_model_dump [r]))
      = json_dumps (NetworkRule_model_dump r)"
    by simp
  ultimately show ?case
    by (simp only: list.map)
next
  case (cons r rs)
  obtain r' rs' where rs: "rs = r' # rs'"
    using cons.hyps by (cases rs) auto
  let ?later = "join '', '' (dumps_items (map NetworkRule_model_dump rs)) @ CHR '']'' # rest"
  have f: "length rs + 4 + n = Suc (Suc (Suc (Suc (length rs + n))))"
    by simp
  have v: "parse_value (length rs + 4 + n)
             (json_dumps (NetworkRule_model_dump r) @ CHR '','' # CHR '' '' # ?later)
           = Some (NetworkRule_model_dump r, CHR '','' # CHR '' '' # ?later)"
    unfolding f by (rule parse_rule)
  have "parse_items (Suc (length rs + 4 + n))
          (json_dumps (NetworkRule_model_dump r) @ CHR '','' # CHR '' '' # ?later)
        = Some (NetworkRule_model_dump r # map NetworkRule_model_dump rs, rest)"
    by (rule parse_items_more [OF v cons.IH])
  moreover have "length (r # rs) + 4 + n = Suc (length rs + 4 + n)"
    by simp
  moreover have "join '', '' (dumps_items (map NetworkRule_model_dump (r # rs))) @ CHR '']'' # rest
      = json_dumps (NetworkRule_model_dump r) @ CHR '','' # CHR '' '' # ?later"
    by (simp add: rs)
  ultimately show ?case
    by (simp only: list.map)
qed

lemma rules_text_brace:
  "rs \<noteq> [] \<Longrightarrow> \<exists>body. join '', '' (dumps_items (map NetworkRule_model_dump rs)) = CHR ''{'' # body"
proof (cases rs)
  case Nil
  assume "rs \<noteq> []"
  with Nil show ?thesis by simp
next
  case (Cons r rs')
  then show ?thesis
    by (cases rs') (simp_all add: dumps_rule)
qed

lemma parse_rules_array:
  "parse_value (Suc (length rs + 4 + n))
     (CHR ''['' # join '', '' (dumps_items (map NetworkRule_model_dump rs)) @ CHR '']'' # rest)
   = Some (PList (map NetworkRule_model_dump rs), rest)"
proof (cases "rs = []")
  case True
  then show ?thesis
    using parse_value_empty_array [of "length rs + 4 + n" rest]
    by (simp del: parse_value.simps)
next
  case False
  then obtain body where b: "join '', '' (dumps_items (map NetworkRule_model_dump rs)) = CHR ''{'' # body"
    using rules_text_brace by blast
  have "parse_items (length rs + 4 + n) (CHR ''{'' # body @ CHR '']'' # rest)
        = Some (map NetworkRule_model_dump rs, rest)"
    using parse_rules [OF False, of n rest] by (simp add: b del: parse_items.simps)
  then have "parse_value (Suc (length rs + 4 + n)) (CHR ''['' # CHR ''{'' # body @ CHR '']'' # rest)
        = Some (PList (map NetworkRule_model_dump rs), rest)"
    by (rule parse_value_array)
  then show ?thesis by (simp add: b del: parse_value.simps)
qed

lemma dumps_policy:
  "json_dumps (NetworkPolicy_model_dump p) =
     CHR ''{'' #
     (case default_action p of
        None \<Rightarrow> []
      | Some a \<Rightarrow> json_string ''defaultAction'' @ CHR '':'' # CHR '' '' # json_string a @ '', '') @
     json_string ''egress'' @ CHR '':'' # CHR '' '' # CHR ''['' #
     join '', '' (dumps_items (map NetworkRule_model_dump (egress p))) @ '']}''"
  by (simp add: NetworkPolicy_model_dump_def split: option.splits)

lemma dict_of_pairs_policy:
  "dict_of_pairs [(''egress'', e)] = [(''egress'', e)]"
  "dict_of_pairs [(''defaultAction'', a), (''egress'', e)] = [(''defaultAction'', a), (''egress'', e)]"
  by (simp_all add: dict_of_pairs_def)

lemma parse_policy:
  "parse_value (length (egress p) + 8 + n) (json_dumps (NetworkPolicy_model_dump p) @ rest)
   = Some (NetworkPolicy_model_dump p, rest)"
proof -
  let ?rs = "egress p"
  let ?arr = "CHR ''['' # join '', '' (dumps_items (map NetworkRule_model_dump ?rs)) @ '']''"
  let ?e = "PList (map NetworkRule_model_dump ?rs)"
  let ?eg = "json_string ''egress'' @ CHR '':'' # CHR '' '' # ?arr @ CHR ''}'' # rest"
  have arr: "parse_value (Suc (length ?rs + 4 + m)) (?arr @ CHR ''}'' # rest)
             = Some (?e, CHR ''}'' # rest)" for m
    using parse_rules_array [of ?rs m "CHR ''}'' # rest"] by (simp del: parse_value.simps)
  have eg: "parse_members (Suc (Suc (length ?rs + 4 + m))) ?eg = Some ([(''egress'', ?e)], rest)" for m
    by (rule parse_members_last [OF arr])
  show ?thesis
  proof (cases "default_action p")
    case None
    have f: "length ?rs + 8 + n = Suc (Suc (Suc (length ?rs + 4 + Suc n)))"
      by simp
    have "parse_value (Suc (Suc (Suc (length ?rs + 4 + Suc n)))) (CHR ''{'' # ?eg)
          = Some (PDict (dict_of_pairs [(''egress'', ?e)]), rest)"
      by (rule parse_value_object [OF eg])
    then show ?thesis
      unfolding f
      by (simp add: dumps_policy None NetworkPolicy_model_dump_def dict_of_pairs_policy
          del: parse_value.simps)
  next
    case (Some a)
    have f: "length ?rs + 8 + n = Suc (Suc (Suc (Suc (length ?rs + 4 + n))))"
      by simp
    have v: "parse_value (Suc (Suc (length ?rs + 4 + n)))
               (json_string a @ CHR '','' # CHR '' '' # ?eg)
             = Some (PStr a, CHR '','' # CHR '' '' # ?eg)"
      by (rule parse_value_string)
    have m: "parse_members (Suc (Suc (Suc (length ?rs + 4 + n))))
               (json_string ''defaultAction'' @ CHR '':'' # CHR '' '' # json_string a @
                CHR '','' # CHR '' '' # ?eg)
             = Some ([(''defaultAction'', PStr a), (''egress'', ?e)], rest)"
      by (rule parse_members_more [OF v eg])
    have "parse_value (Suc (Suc (Suc (Suc (length ?rs + 4 + n)))))
            (CHR ''{'' # json_string ''defaultAction'' @ CHR '':'' # CHR '' '' # json_string a @
                CHR '','' # CHR '' '' # ?eg)
          = Some (PDict (dict_of_pairs [(''defaultAction'', PStr a), (''egress'', ?e)]), rest)"
      by (rule parse_value_object [OF m])
    then show ?thesis
      unfolding f
      by (simp add: dumps_policy Some NetworkPolicy_model_dump_def dict_of_pairs_policy
          del: parse_value.simps)
  qed
qed

lemma length_rules_text:
  "length rs \<le> length (join '', '' (dumps_items (map NetworkRule_model_dump rs)))"
proof (induction rs)
  case Nil
  show ?case by simp
next
  case (Cons r rs)
  then show ?case
    by (cases rs) (simp_all add: dumps_rule)
qed

lemma length_policy_text:
  "length (egress p) + 4 \<le> length (json_dumps (NetworkPolicy_model_dump p))"
  using length_rules_text [of "egress p"]
  by (simp add: dumps_policy json_string_def split: option.splits)

lemma json_loads_policy:
  "json_loads (json_dumps (NetworkPolicy_model_dump p)) = Some (NetworkPolicy_model_dump p)"
proof -
  let ?s = "json_dumps (NetworkPolicy_model_dump p)"
  have "length (egress p) + 8 \<le> 2 * length ?s + 1"
    using length_policy_text [of p] by simp
  then obtain n where n: "2 * length ?s + 1 = length (egress p) + 8 + n"
    using le_Suc_ex by blast
  have "parse_value (2 * length ?s + 1) (?s @ []) = Some (NetworkPolicy_model_dump p, [])"
    unfolding n by (rule parse_policy)
  then show ?thesis
    by (simp add: json_loads_def skip_ws_token)
qed

subsection \<open>The egress sidecar\<close>

text \<open>
  C1. For every policy and image, the container has exactly one environment variable,
  \<open>OPENSANDBOX_EGRESS_RULES\<close>; its value is valid JSON, and parsing it gives an object
  whose \<open>defaultAction\<close> and whose \<open>egress\<close> list of \<open>action\<close> and \<open>target\<close> entries are
  those of the policy. A default action that is \<open>None\<close> is left out of the object: the
  key is missing, not \<open>null\<close>.
\<close>

theorem egress_rules_env_round_trip:
  "\<exists>payload parsed.
     dict_get (build_egress_sidecar_container img p) ''env'' =
       Some (PList [PDict [(''name'', PStr ''OPENSANDBOX_EGRESS_RULES''),
                           (''value'', PStr payload)]]) \<and>
     json_loads payload = Some parsed \<and>
     parsed =
       PDict ((case default_action p of None \<Rightarrow> [] | Some a \<Rightarrow> [(''defaultAction'', PStr a)]) @
              [(''egress'',
                PList (map (\<lambda>r. PDict [(''action'', PStr (action r)),
                                         (''target'', PStr (target r))]) (egress p)))]) \<and>
     dict_get parsed ''defaultAction'' =
       (case default_action p of None \<Rightarrow> None | Some a \<Rightarrow> Some (PStr a)) \<and>
     dict_get parsed ''egress'' =
       Some (PList (map (\<lambda>r. PDict [(''action'', PStr (action r)),
                                      (''target'', PStr (target r))]) (egress p)))"
proof -
  let ?payload = "json_dumps (NetworkPolicy_model_dump p)"
  let ?parsed = "NetworkPolicy_model_dump p"
  have env: "dict_get (build_egress_sidecar_container img p) ''env'' =
       Some (PList [PDict [(''name'', PStr ''OPENSANDBOX_EGRESS_RULES''),
                           (''value'', PStr ?payload)]])"
    by (simp add: build_egress_sidecar_container_def EGRESS_RULES_ENV_def)
  have loads: "json_loads ?payload = Some ?parsed"
    by (rule json_loads_policy)
  have shape: "?parsed =
       PDict ((case default_action p of None \<Rightarrow> [] | Some a \<Rightarrow> [(''defaultAction'', PStr a)]) @
              [(''egress'',
                PList (map (\<lambda>r. PDict [(''action'', PStr (action r)),
                                         (''target'', PStr (target r))]) (egress p)))])"
    by (simp add: NetworkPolicy_model_dump_def NetworkRule_model_dump_def)
  have da: "dict_get ?parsed ''defaultAction'' =
       (case default_action p of None \<Rightarrow> None | Some a \<Rightarrow> Some (PStr a))"
    by (simp add: NetworkPolicy_model_dump_def split: option.splits)
  have eg: "dict_get ?parsed ''egress'' =
       Some (PList (map (\<lambda>r. PDict [(''action'', PStr (action r)),
                                      (''target'', PStr (target r))]) (egress p)))"
    by (simp add: NetworkPolicy_model_dump_def NetworkRule_model_dump_def split: option.splits)
  from env loads shape da eg show ?thesis by blast
qed

theorem egress_rules_env_round_trip_witness:
  "\<exists>payload.
     dict_get (build_egress_sidecar_container ''opensandbox/egress:v1.0.0''
        \<lparr>default_action = Some ''deny'',
          egress = [\<lparr>action = ''allow'', target = ''pypi.org''\<rparr>]\<rparr>) ''env'' =
       Some (PList [PDict [(''name'', PStr ''OPENSANDBOX_EGRESS_RULES''),
                           (''value'', PStr payload)]]) \<and>
     json_loads payload =
       Some (PDict [(''defaultAction'', PStr ''deny''),
                    (''egress'', PList [PDict [(''action'', PStr ''allow''),
                                               (''target'', PStr ''pypi.org'')]])])"
  using egress_rules_env_round_trip [of "''opensandbox/egress:v1.0.0''"
      "\<lparr>default_action = Some ''deny'',
        egress = [\<lparr>action = ''allow'', target = ''pypi.org''\<rparr>]\<rparr>"]
  by auto

text \<open>
  C2. The sidecar is named \<open>egress\<close> and its security context adds \<open>NET_ADMIN\<close>; the
  security context of the main container drops \<open>NET_ADMIN\<close> when there is a network policy
  and is the empty dictionary when there is none; and the sysctls are exactly the three
  that disable IPv6 for \<open>all\<close>, \<open>default\<close> and \<open>lo\<close>, each with the value \<open>"1"\<close>.
\<close>

theorem egress_capabilities_and_sysctls:
  "dict_get (build_egress_sidecar_container img p) ''name'' = Some (PStr ''egress'') \<and>
   dict_get (build_egress_sidecar_container img p) ''image'' = Some (PStr img) \<and>
   dict_get (build_egress_sidecar_container img p) ''securityContext'' =
     Some (PDict [(''capabilities'', PDict [(''add'', PList [PStr ''NET_ADMIN''])])]) \<and>
   build_security_context_for_main_container True =
     PDict [(''capabilities'', PDict [(''drop'', PList [PStr ''NET_ADMIN''])])] \<and>
   build_security_context_for_main_container False = PDict [] \<and>
   build_ipv6_disable_sysctls =
     [PDict [(''name'', PStr ''net.ipv6.conf.all.disable_ipv6''), (''value'', PStr ''1'')],
      PDict [(''name'', PStr ''net.ipv6.conf.default.disable_ipv6''), (''value'', PStr ''1'')],
      PDict [(''name'', PStr ''net.ipv6.conf.lo.disable_ipv6''), (''value'', PStr ''1'')]]"
  by (simp add: build_egress_sidecar_container_def build_security_context_for_egress_def
      build_security_context_for_main_container_def build_ipv6_disable_sysctls_def)


end
